theory Spec2Isabelle
  imports Main "HOL-Library.AList"
begin

section \<open>HTTP request authentication (server/http.go)\<close>

text \<open>
  The part of \<^verbatim>\<open>*http.Request\<close> that \<^verbatim>\<open>getHttpAuth\<close> reads: the values stored
  under a header name, the values of a URL query parameter, the values of a parsed form
  field and the cookies in the order the request carries them.
\<close>

record Request =
  Header :: "string \<Rightarrow> string list"
  URLQuery :: "string \<Rightarrow> string list"
  Form :: "string \<Rightarrow> string list"
  Cookies :: "(string \<times> string) list"

text \<open>\<^verbatim>\<open>Header.Get\<close>, \<^verbatim>\<open>url.Values.Get\<close> and \<^verbatim>\<open>FormValue\<close> return the first value
  stored under the key, or the empty string.\<close>

definition firstValue :: "string list \<Rightarrow> string" where
  "firstValue vs = (case vs of [] \<Rightarrow> [] | v # _ \<Rightarrow> v)"

definition HeaderGet :: "Request \<Rightarrow> string \<Rightarrow> string" where
  "HeaderGet req k = firstValue (Header req k)"

definition QueryGet :: "Request \<Rightarrow> string \<Rightarrow> string" where
  "QueryGet req k = firstValue (URLQuery req k)"

definition FormValue :: "Request \<Rightarrow> string \<Rightarrow> string" where
  "FormValue req k = firstValue (Form req k)"

text \<open>\<^verbatim>\<open>req.Cookie(name)\<close>: the first cookie of that name, \<open>None\<close> for
  \<^verbatim>\<open>http.ErrNoCookie\<close>.\<close>

definition Cookie :: "Request \<Rightarrow> string \<Rightarrow> string option" where
  "Cookie req k = map_of (Cookies req) k"

text \<open>\<^verbatim>\<open>strings.Split(s, sep)\<close> for a one-byte separator: the pieces between the
  separators; the empty string gives one empty piece.\<close>

fun Split :: "string \<Rightarrow> char \<Rightarrow> string list" where
  "Split [] sep = [[]]"
| "Split (c # cs) sep =
     (if c = sep then [] # Split cs sep
      else (case Split cs sep of
              [] \<Rightarrow> [[c]]
            | p # ps \<Rightarrow> (c # p) # ps))"

text \<open>\<^verbatim>\<open>strings.NewReplacer("-", "+", "_", "/").Replace\<close>: base64 URL alphabet to the
  standard one, byte by byte.\<close>

definition urlToStd :: "char \<Rightarrow> char" where
  "urlToStd c = (if c = CHR ''-'' then CHR ''+'' else if c = CHR ''_'' then CHR ''/'' else c)"

definition Replace :: "string \<Rightarrow> string" where
  "Replace s = map urlToStd s"

definition getHttpAuth :: "Request \<Rightarrow> string \<times> string" where
  "getHttpAuth req =
     (let parts = Split (HeaderGet req ''X-Tinode-Auth'') CHR '' '' in
      if length parts = 2 then (parts ! 0, parts ! 1)
      else
        let parts = Split (HeaderGet req ''Authorization'') CHR '' '' in
        if length parts = 2 then (parts ! 0, parts ! 1)
        else
          let method = QueryGet req ''auth'' in
          if method \<noteq> [] then (method, Replace (QueryGet req ''secret''))
          else
            let method = FormValue req ''auth'' in
            if method \<noteq> [] then (method, FormValue req ''secret'')
            else
              (case Cookie req ''auth'' of
                 None \<Rightarrow> (method, [])
               | Some mcookie \<Rightarrow>
                   (case Cookie req ''secret'' of
                      None \<Rightarrow> (method, [])
                    | Some scookie \<Rightarrow> (mcookie, scookie))))"

subsection \<open>The lookup order as the specification words it\<close>

text \<open>The specification's side is written on the request's fields alone; it shares no
  function with the embedding of the code above.\<close>

text \<open>The value of a header, query parameter or form field: its first value, empty
  when it has none.\<close>

definition specValue :: "string list \<Rightarrow> string" where
  "specValue vs = (if vs = [] then [] else hd vs)"

text \<open>A cookie's value: that of the first cookie carrying the name.\<close>

definition specCookie :: "(string \<times> string) list \<Rightarrow> string \<Rightarrow> string option" where
  "specCookie cs k =
     (case filter (\<lambda>c. fst c = k) cs of [] \<Rightarrow> None | c # _ \<Rightarrow> Some (snd c))"

text \<open>URL-safe base64 to standard base64: the substitution table of the
  specification, applied to every character.\<close>

definition specSubstitution :: "(char \<times> char) list" where
  "specSubstitution = [(CHR ''-'', CHR ''+''), (CHR ''_'', CHR ''/'')]"

definition specRewrite :: "string \<Rightarrow> string" where
  "specRewrite s =
     map (\<lambda>c. case map_of specSubstitution c of None \<Rightarrow> c | Some d \<Rightarrow> d) s"

text \<open>A header value is a well-formed pair when it holds exactly one space: the method
  is the text before it, the secret the text after it.\<close>

definition headerPair :: "string \<Rightarrow> (string \<times> string) option" where
  "headerPair v =
     (if count_list v CHR '' '' = 1
      then Some (takeWhile (\<lambda>c. c \<noteq> CHR '' '') v, tl (dropWhile (\<lambda>c. c \<noteq> CHR '' '') v))
      else None)"

definition queryPair :: "Request \<Rightarrow> (string \<times> string) option" where
  "queryPair req =
     (if specValue (URLQuery req ''auth'') = [] then None
      else Some (specValue (URLQuery req ''auth''),
                 specRewrite (specValue (URLQuery req ''secret''))))"

definition formPair :: "Request \<Rightarrow> (string \<times> string) option" where
  "formPair req =
     (if specValue (Form req ''auth'') = [] then None
      else Some (specValue (Form req ''auth''), specValue (Form req ''secret'')))"

definition cookiePair :: "Request \<Rightarrow> (string \<times> string) option" where
  "cookiePair req =
     (case (specCookie (Cookies req) ''auth'', specCookie (Cookies req) ''secret'') of
        (Some m, Some s) \<Rightarrow> Some (m, s)
      | _ \<Rightarrow> None)"

fun firstPair :: "(string \<times> string) option list \<Rightarrow> string \<times> string" where
  "firstPair [] = ([], [])"
| "firstPair (None # ps) = firstPair ps"
| "firstPair (Some p # ps) = p"

definition authSources :: "Request \<Rightarrow> (string \<times> string) option list" where
  "authSources req =
     [headerPair (specValue (Header req ''X-Tinode-Auth'')),
      headerPair (specValue (Header req ''Authorization'')),
      queryPair req, formPair req, cookiePair req]"

text \<open>Requests for the examples: one that carries its credentials in the query, with a
  URL-safe secret and a cookie pair besides, and the same one with an Authorization
  header added.\<close>

definition exQuery :: "string \<Rightarrow> string list" where
  "exQuery k =
     (if k = ''auth'' then [''token''] else if k = ''secret'' then [''a-b_c''] else [])"

definition exNoValues :: "string \<Rightarrow> string list" where
  "exNoValues k = []"

definition exAuthHeader :: "string \<Rightarrow> string list" where
  "exAuthHeader k = (if k = ''Authorization'' then [''basic dXNlcg==''] else [])"

definition exRequest :: "(string \<Rightarrow> string list) \<Rightarrow> Request" where
  "exRequest h =
     \<lparr>Header = h, URLQuery = exQuery, Form = exNoValues,
      Cookies = [(''auth'', ''cookie''), (''secret'', ''x-y'')]\<rparr>"

section \<open>Proxy topic actor (the second part of server/http.go)\<close>

subsection \<open>Messages\<close>

text \<open>\<^verbatim>\<open>types.Uid\<close> is an unsigned 64-bit id; the actor only compares uids and tests
  \<^verbatim>\<open>IsZero\<close>. A \<^verbatim>\<open>*Session\<close> is an address; \<open>None\<close> is the nil pointer.\<close>

type_synonym Uid = nat
type_synonym sref = nat
type_synonym AccessMode = nat

datatype error = NilDeref | Panic

datatype ProxyReqType =
  ProxyReqNone | ProxyReqJoin | ProxyReqLeave | ProxyReqMeta | ProxyReqBroadcast
  | ProxyReqBgSession | ProxyReqMeUserAgent | ProxyReqCall

record ClientComMessage =
  Leave :: "unit option"
  Original :: string
  AsUser :: string
  init :: bool
  sess :: "sref option"

record MsgServerCtrl =
  Code :: int
  Text :: string
  CtrlTopic :: string

record MsgServerData =
  SeqId :: int

record MsgAccessMode =
  Want :: string
  Given :: string

record MsgServerPres =
  What :: string
  Src :: string
  Acs :: "MsgAccessMode option"

record ServerComMessage =
  Ctrl :: "MsgServerCtrl option"
  Data :: "MsgServerData option"
  Pres :: "MsgServerPres option"
  Info :: "unit option"
  muid :: Uid
  SkipSid :: string
  srvSess :: "sref option"

record ClusterResp =
  SrvMsg :: "ServerComMessage option"
  OrigSid :: string
  OrigReqType :: ProxyReqType

record sessionUpdate =
  updSess :: "sref option"
  updUserAgent :: string

text \<open>What a session is handed through \<^verbatim>\<open>queueOut\<close>: the two error replies built from
  the client's message (their constructors are not in the sources; the timestamp is left
  out) or a server message.\<close>

datatype OutMsg =
  ErrLockedReply ClientComMessage
  | ErrClusterUnreachableReply ClientComMessage
  | SrvOut ServerComMessage

subsection \<open>Sessions and the topic\<close>

record Subscription =
  broadcast :: nat
  doneCh :: nat
  subMeta :: nat
  subSupd :: nat

text \<open>A session object. \<open>outq\<close> is every message passed to \<^verbatim>\<open>queueOut\<close> for it, oldest
  first. \<open>inflightReqs\<close> is \<open>None\<close> for a nil wait group, otherwise the number of
  \<^verbatim>\<open>Done()\<close> calls made on it.\<close>

record Session =
  sid :: string
  suid :: Uid
  userAgent :: string
  subs :: "string \<rightharpoonup> Subscription"
  outq :: "OutMsg list"
  inflightReqs :: "nat option"

datatype TopicCat = TopicCatMe | TopicCatFnd | TopicCatP2P | TopicCatGrp | TopicCatSys

record perSessionData =
  uid :: Uid
  isChanSub :: bool

record perUserData =
  modeWant :: AccessMode
  modeGiven :: AccessMode

text \<open>The topic's fields the proxy loop reads or writes. \<open>sessions\<close> is the Go map from
  session pointer to per-session data, kept as an association list; \<open>inactive\<close> is what
  \<^verbatim>\<open>isInactive()\<close> answers; the four channel fields are channel ids.\<close>

record Topic =
  name :: string
  xoriginal :: string
  cat :: TopicCat
  isChan :: bool
  lastID :: int
  inactive :: bool
  sessions :: "(sref \<times> perSessionData) list"
  perUser :: "Uid \<rightharpoonup> perUserData"
  clientMsg :: nat
  unreg :: nat
  meta :: nat
  supd :: nat

datatype ClusterCall =
  RouteToTopicMaster ProxyReqType "ClientComMessage option" string
  | RouteToTopicIntraCluster string ServerComMessage
  | TopicProxyGone string

text \<open>The state one proxy loop works on: its topic, its kill timer (\<open>None\<close> when
  stopped or expired, \<open>Some d\<close> when armed to fire after \<open>d\<close>), the session objects, the
  calls made on the cluster facade and what was sent to the hub, both oldest first.\<close>

record Actor =
  topic :: Topic
  killTimer :: "nat option"
  heap :: "sref \<Rightarrow> Session"
  routed :: "ClusterCall list"
  hubUnreg :: "string list"
  exited :: bool

text \<open>What the loop uses from files that are not among the sources, as parameters:
  the uid parser and printer and the channel-name helpers of package \<^verbatim>\<open>types\<close>,
  \<^verbatim>\<open>Topic.original\<close>, \<^verbatim>\<open>AccessMode.ApplyMutation\<close> (\<open>None\<close> for its error), the
  constant \<^verbatim>\<open>idleProxyTopicTimeout\<close>, and whether \<^verbatim>\<open>Session.queueOut\<close> returns on a
  nil receiver without reading it.\<close>

record Env =
  ParseUserId :: "string \<Rightarrow> Uid"
  UserId :: "Uid \<Rightarrow> string"
  GrpToChn :: "string \<Rightarrow> string"
  IsChannel :: "string \<Rightarrow> bool"
  original :: "Topic \<Rightarrow> Uid \<Rightarrow> string"
  ApplyMutation :: "AccessMode \<Rightarrow> string \<Rightarrow> AccessMode option"
  idleProxyTopicTimeout :: nat
  queueOutNilReceiverOk :: bool

definition bindE :: "error + 'a \<Rightarrow> ('a \<Rightarrow> error + 'b) \<Rightarrow> error + 'b" where
  "bindE m f = (case m of Inl e \<Rightarrow> Inl e | Inr x \<Rightarrow> f x)"

subsection \<open>Helpers of the session and the topic\<close>

text \<open>\<^verbatim>\<open>t.sessions[s]\<close>; the nil pointer is never stored as a key.\<close>

definition lookupSess :: "Topic \<Rightarrow> sref option \<Rightarrow> perSessionData option" where
  "lookupSess t so = (case so of None \<Rightarrow> None | Some s \<Rightarrow> map_of (sessions t) s)"

text \<open>Modelled from the spec: \<^verbatim>\<open>Topic.remSession\<close> is not among the sources. The eviction
  loop calls it on every attached session with the evicted uid and the spec has it
  "remove every session whose uid matches": the session is removed from the local set
  when it is attached and its per-session uid is the given one, and the call returns its
  per-session data and whether it removed it. A proxy topic holds ordinary sessions only.\<close>

definition remSession ::
  "Topic \<Rightarrow> sref option \<Rightarrow> Uid \<Rightarrow> perSessionData option \<times> bool \<times> Topic" where
  "remSession t so asUid =
     (case so of
        None \<Rightarrow> (None, False, t)
      | Some s \<Rightarrow>
          (case map_of (sessions t) s of
             None \<Rightarrow> (None, False, t)
           | Some pssd \<Rightarrow>
               if uid pssd = asUid
               then (Some pssd, True, t\<lparr>sessions := AList.delete s (sessions t)\<rparr>)
               else (None, False, t)))"

text \<open>Modelled from the spec: \<^verbatim>\<open>Topic.addSession\<close> is not among the sources; it adds
  the session to the local set "with the uid supplied by the master" and the channel
  flag.\<close>

definition addSession :: "Topic \<Rightarrow> sref \<Rightarrow> Uid \<Rightarrow> bool \<Rightarrow> Topic" where
  "addSession t s asUid chanSub =
     t\<lparr>sessions := AList.update s \<lparr>uid = asUid, isChanSub = chanSub\<rparr> (sessions t)\<rparr>"

definition updSession :: "sref \<Rightarrow> (Session \<Rightarrow> Session) \<Rightarrow> Actor \<Rightarrow> Actor" where
  "updSession s f a = a\<lparr>heap := (heap a)(s := f (heap a s))\<rparr>"

text \<open>Modelled from the spec: \<^verbatim>\<open>Session.addSub\<close>, \<^verbatim>\<open>Session.delSub\<close> and
  \<^verbatim>\<open>Session.detachSession\<close> are not among the sources; they install and drop the
  session's subscription for a topic name, \<^verbatim>\<open>detachSession\<close> being the removal "on the
  session side".\<close>

definition addSub :: "sref \<Rightarrow> string \<Rightarrow> Subscription \<Rightarrow> Actor \<Rightarrow> Actor" where
  "addSub s tn sub a = updSession s (\<lambda>x. x\<lparr>subs := (subs x)(tn \<mapsto> sub)\<rparr>) a"

definition delSub :: "sref \<Rightarrow> string \<Rightarrow> Actor \<Rightarrow> Actor" where
  "delSub s tn a = updSession s (\<lambda>x. x\<lparr>subs := (subs x)(tn := None)\<rparr>) a"

definition detachSession :: "sref \<Rightarrow> string \<Rightarrow> Actor \<Rightarrow> Actor" where
  "detachSession s tn a = delSub s tn a"

text \<open>Modelled from the spec: \<^verbatim>\<open>Session.queueOut\<close> is not among the sources; it
  enqueues the message on the session's output queue. What it does on a nil receiver is
  the parameter \<open>queueOutNilReceiverOk\<close>.\<close>

definition enqueue :: "sref \<Rightarrow> OutMsg \<Rightarrow> Actor \<Rightarrow> Actor" where
  "enqueue s m a = updSession s (\<lambda>x. x\<lparr>outq := outq x @ [m]\<rparr>) a"

definition queueOut :: "Env \<Rightarrow> sref option \<Rightarrow> OutMsg \<Rightarrow> Actor \<Rightarrow> error + Actor" where
  "queueOut env so m a =
     (case so of
        None \<Rightarrow> if queueOutNilReceiverOk env then Inr a else Inl NilDeref
      | Some s \<Rightarrow> Inr (enqueue s m a))"

text \<open>\<^verbatim>\<open>if msg.sess.inflightReqs != nil { msg.sess.inflightReqs.Done() }\<close>: the field
  read fails on a nil session.\<close>

definition inflightDone :: "sref option \<Rightarrow> Actor \<Rightarrow> error + Actor" where
  "inflightDone so a =
     (case so of
        None \<Rightarrow> Inl NilDeref
      | Some s \<Rightarrow>
          Inr (updSession s (\<lambda>x. x\<lparr>inflightReqs := map_option Suc (inflightReqs x)\<rparr>) a))"

text \<open>The cluster facade is outside the sources: a call is recorded, and whether it
  returned an error is an input of the event.\<close>

definition clusterCall :: "ClusterCall \<Rightarrow> Actor \<Rightarrow> Actor" where
  "clusterCall c a = a\<lparr>routed := routed a @ [c]\<rparr>"

subsection \<open>Leave requests\<close>

definition handleProxyLeaveRequest ::
  "Env \<Rightarrow> ClientComMessage \<Rightarrow> bool \<Rightarrow> Actor \<Rightarrow> error + (bool \<times> ClientComMessage \<times> Actor)" where
  "handleProxyLeaveRequest env msg routeErr a =
     (let t = topic a;
          asUid0 = (if init msg then ParseUserId env (AsUser msg) else 0);
          resolved =
            (if asUid0 = 0
             then (case lookupSess t (sess msg) of
                     Some pssd \<Rightarrow> Some (uid pssd)
                   | None \<Rightarrow> None)
             else Some asUid0)
      in case resolved of
           None \<Rightarrow> Inr (False, msg, a)
         | Some asUid \<Rightarrow>
             (case remSession t (sess msg) asUid of
                (pssd, result, t1) \<Rightarrow>
                  bindE
                    (if result
                     then (case sess msg of
                             None \<Rightarrow> Inl NilDeref
                           | Some s \<Rightarrow> Inr (delSub s (name t) (a\<lparr>topic := t1\<rparr>)))
                     else Inr (a\<lparr>topic := t1\<rparr>))
                    (\<lambda>a1.
                       let msg1 =
                             (if \<not> init msg
                              then msg\<lparr>AsUser := UserId env asUid, Leave := Some (),
                                       init := True\<rparr>
                              else msg);
                           msg2 =
                             (if Original msg1 = []
                              then msg1\<lparr>Original :=
                                     (if cat t = TopicCatGrp \<and> isChan t
                                      then (if result \<and>
                                               (case pssd of Some p \<Rightarrow> isChanSub p
                                                | None \<Rightarrow> False)
                                            then GrpToChn env (xoriginal t)
                                            else xoriginal t)
                                      else original env t1 asUid)\<rparr>
                              else msg1);
                           a2 = clusterCall
                                  (RouteToTopicMaster ProxyReqLeave (Some msg2) (name t)) a1;
                           a3 = (if sessions (topic a2) = []
                                 then a2\<lparr>killTimer := Some (idleProxyTopicTimeout env)\<rparr>
                                 else a2)
                       in Inr (result, msg2, a3))))"

text \<open>The \<^verbatim>\<open>case msg := <-t.unreg\<close> arm of \<^verbatim>\<open>runProxy\<close>. The handler updates the
  message in place, so the arm goes on with the updated one.\<close>

definition unregCase :: "Env \<Rightarrow> ClientComMessage \<Rightarrow> bool \<Rightarrow> Actor \<Rightarrow> error + Actor" where
  "unregCase env msg routeErr a =
     bindE (handleProxyLeaveRequest env msg routeErr a)
       (\<lambda>(ok, msg', a1).
          bindE
            (if \<not> ok
             then queueOut env (sess msg') (ErrClusterUnreachableReply msg') a1
             else Inr a1)
            (\<lambda>a2.
               if init msg'
               then (case sess msg' of
                       None \<Rightarrow> Inl NilDeref
                     | Some s \<Rightarrow>
                         if inflightReqs (heap a2 s) \<noteq> None
                         then inflightDone (Some s) a2
                         else Inr a2)
               else Inr a2))"

subsection \<open>Responses of the master\<close>

definition updateAcsFromPresMsg :: "Env \<Rightarrow> MsgServerPres \<Rightarrow> Topic \<Rightarrow> error + Topic" where
  "updateAcsFromPresMsg env pres t =
     (let u = ParseUserId env (Src pres) in
      if u = 0 then Inr t
      else
        let pud = (case perUser t u of
                     None \<Rightarrow> \<lparr>modeWant = 0, modeGiven = 0\<rparr>
                   | Some p \<Rightarrow> p)
        in case Acs pres of
             None \<Rightarrow> Inl NilDeref
           | Some dacs \<Rightarrow>
               (case ApplyMutation env (modeWant pud) (Want dacs) of
                  None \<Rightarrow> Inr t
                | Some w \<Rightarrow>
                    (case ApplyMutation env (modeGiven pud) (Given dacs) of
                       None \<Rightarrow> Inr t
                     | Some g \<Rightarrow>
                         Inr (t\<lparr>perUser :=
                                 (perUser t)(u \<mapsto> \<lparr>modeWant = w, modeGiven = g\<rparr>)\<rparr>))))"

text \<open>Modelled from the spec: \<^verbatim>\<open>Topic.broadcastToSessions\<close> is not among the sources;
  the message goes "to every locally attached session".\<close>

definition broadcastToSessions :: "ServerComMessage \<Rightarrow> Actor \<Rightarrow> Actor" where
  "broadcastToSessions msg a =
     fold (\<lambda>s. enqueue s (SrvOut msg)) (map fst (sessions (topic a))) a"

definition handleProxyBroadcast :: "ServerComMessage \<Rightarrow> Actor \<Rightarrow> Actor" where
  "handleProxyBroadcast msg a =
     (if inactive (topic a) then a
      else
        let a1 = (case Data msg of
                    None \<Rightarrow> a
                  | Some d \<Rightarrow> a\<lparr>topic := (topic a)\<lparr>lastID := SeqId d\<rparr>\<rparr>)
        in broadcastToSessions msg a1)"

text \<open>The body of the eviction loop for one attached session.\<close>

definition evictOne :: "ServerComMessage \<Rightarrow> sref \<Rightarrow> Actor \<Rightarrow> Actor" where
  "evictOne msg s a =
     (case remSession (topic a) (Some s) (muid msg) of
        (pssd, removed, t1) \<Rightarrow>
          if removed
          then
            let a1 = detachSession s (name t1) (a\<lparr>topic := t1\<rparr>) in
            if sid (heap a1 s) \<noteq> SkipSid msg then enqueue s (SrvOut msg) a1 else a1
          else a\<lparr>topic := t1\<rparr>)"

text \<open>\<^verbatim>\<open>logs.Err.Panicf\<close> on a zero uid is the result \<open>Panic\<close>. The loop ranges over the
  map; each round deletes at most its own key, so it visits the keys the map had.\<close>

definition proxyCtrlBroadcast :: "ServerComMessage \<Rightarrow> Actor \<Rightarrow> error + Actor" where
  "proxyCtrlBroadcast msg a =
     (case Ctrl msg of
        None \<Rightarrow> Inl NilDeref
      | Some c \<Rightarrow>
          if Code c = 205 \<and> Text c = ''evicted''
          then (if muid msg = 0 then Inl Panic
                else Inr (fold (evictOne msg) (map fst (sessions (topic a))) a))
          else Inr a)"

text \<open>The join branch of a response for one session. \<open>sess\<close> is what the first
  \<^verbatim>\<open>globals.sessionStore.Get(msg.OrigSid)\<close> returned, \<open>session\<close> what the second one
  (under the lock) returned: the store is shared with other goroutines, so both are
  inputs.\<close>

definition joinResponse ::
  "Env \<Rightarrow> ServerComMessage \<Rightarrow> sref option \<Rightarrow> sref option \<Rightarrow> Actor \<Rightarrow> Actor" where
  "joinResponse env m sess' session a =
     (case (sess', Ctrl m) of
        (Some s, Some c) \<Rightarrow>
          if Code c < 300
          then
            let t = topic a;
                a1 = (case session of
                        None \<Rightarrow> a
                      | Some s2 \<Rightarrow>
                          addSub s2 (name t)
                            \<lparr>broadcast = clientMsg t, doneCh = unreg t,
                             subMeta = meta t, subSupd = supd t\<rparr>
                            (a\<lparr>topic := addSession t s2 (muid m)
                                          (IsChannel env (CtrlTopic c))\<rparr>))
            in a1\<lparr>killTimer := None\<rparr>
          else if sessions (topic a) = []
          then a\<lparr>killTimer := Some (idleProxyTopicTimeout env)\<rparr>
          else a
      | _ \<Rightarrow> a)"

definition leaveResponse ::
  "Env \<Rightarrow> ServerComMessage \<Rightarrow> sref option \<Rightarrow> Actor \<Rightarrow> Actor" where
  "leaveResponse env m sess' a =
     (case Ctrl m of
        None \<Rightarrow> a
      | Some c \<Rightarrow>
          let a1 = (if Code c < 300
                    then (case sess' of
                            None \<Rightarrow> a
                          | Some s \<Rightarrow>
                              (case remSession (topic a) (Some s) (suid (heap a s)) of
                                 (pssd, removed, t1) \<Rightarrow> a\<lparr>topic := t1\<rparr>))
                    else a)
          in if sessions (topic a1) = []
             then a1\<lparr>killTimer := Some (idleProxyTopicTimeout env)\<rparr>
             else a1)"

text \<open>The first statement of \<^verbatim>\<open>proxyMasterResponse\<close>: a presence message that
  changes access is applied to the topic.\<close>

definition presAcs :: "Env \<Rightarrow> ServerComMessage \<Rightarrow> Actor \<Rightarrow> error + Actor" where
  "presAcs env m a =
     (case Pres m of
        None \<Rightarrow> Inr a
      | Some pres \<Rightarrow>
          if What pres = ''acs'' \<and> Acs pres \<noteq> None
          then bindE (updateAcsFromPresMsg env pres (topic a))
                 (\<lambda>t1. Inr (a\<lparr>topic := t1\<rparr>))
          else Inr a)"

definition proxyMasterResponse ::
  "Env \<Rightarrow> ClusterResp \<Rightarrow> sref option \<Rightarrow> sref option \<Rightarrow> Actor \<Rightarrow> error + Actor" where
  "proxyMasterResponse env msg sess' session a =
     (case SrvMsg msg of
        None \<Rightarrow> Inl NilDeref
      | Some m \<Rightarrow>
          bindE (presAcs env m a)
            (\<lambda>a1.
               if OrigSid msg = ''*''
               then (if Pres m \<noteq> None \<or> Data m \<noteq> None \<or> Info m \<noteq> None
                     then Inr (handleProxyBroadcast m a1)
                     else if Ctrl m \<noteq> None then proxyCtrlBroadcast m a1
                     else Inr a1)
               else
                 let a2 = (case OrigReqType msg of
                             ProxyReqJoin \<Rightarrow> joinResponse env m sess' session a1
                           | ProxyReqBroadcast \<Rightarrow> a1
                           | ProxyReqMeta \<Rightarrow> a1
                           | ProxyReqCall \<Rightarrow> a1
                           | ProxyReqLeave \<Rightarrow> leaveResponse env m sess' a1
                           | _ \<Rightarrow> a1)
                 in (case sess' of
                       None \<Rightarrow> Inr a2
                     | Some s \<Rightarrow> Inr (enqueue s (SrvOut m) a2))))"

subsection \<open>The other arms of the loop\<close>

definition inflightDoneIfSet :: "sref option \<Rightarrow> Actor \<Rightarrow> error + Actor" where
  "inflightDoneIfSet so a =
     (case so of
        None \<Rightarrow> Inl NilDeref
      | Some s \<Rightarrow> if inflightReqs (heap a s) \<noteq> None then inflightDone (Some s) a else Inr a)"

definition forwardOrReply ::
  "Env \<Rightarrow> ProxyReqType \<Rightarrow> ClientComMessage \<Rightarrow> bool \<Rightarrow> Actor \<Rightarrow> error + Actor" where
  "forwardOrReply env req msg routeErr a =
     (let a1 = clusterCall (RouteToTopicMaster req (Some msg) (name (topic a))) a in
      if routeErr then queueOut env (sess msg) (ErrClusterUnreachableReply msg) a1
      else Inr a1)"

definition regCase :: "Env \<Rightarrow> ClientComMessage \<Rightarrow> bool \<Rightarrow> Actor \<Rightarrow> error + Actor" where
  "regCase env msg routeErr a =
     bindE
       (if inactive (topic a) then queueOut env (sess msg) (ErrLockedReply msg) a
        else forwardOrReply env ProxyReqJoin msg routeErr a)
       (inflightDoneIfSet (sess msg))"

definition serverMsgCase :: "ServerComMessage \<Rightarrow> Actor \<Rightarrow> Actor" where
  "serverMsgCase msg a =
     (if Info msg \<noteq> None \<or> Pres msg \<noteq> None
      then clusterCall (RouteToTopicIntraCluster (name (topic a)) msg) a
      else a)"

definition supdCase :: "sessionUpdate \<Rightarrow> Actor \<Rightarrow> Actor" where
  "supdCase upd a =
     (case updSess upd of
        None \<Rightarrow>
          clusterCall (RouteToTopicMaster ProxyReqMeUserAgent None (name (topic a))) a
      | Some s \<Rightarrow>
          (case map_of (sessions (topic a)) s of
             None \<Rightarrow> a
           | Some pssd \<Rightarrow>
               clusterCall (RouteToTopicMaster ProxyReqBgSession None (name (topic a))) a))"

definition exitCase :: "Actor \<Rightarrow> Actor" where
  "exitCase a =
     (let a1 = fold (\<lambda>s. detachSession s (name (topic a))) (map fst (sessions (topic a))) a
      in (clusterCall (TopicProxyGone (name (topic a))) a1)\<lparr>exited := True\<rparr>)"

text \<open>The timer's channel delivers only while the timer is armed; the timer is
  single-shot, so it is no longer armed after it fired.\<close>

definition killTimerCase :: "Actor \<Rightarrow> Actor" where
  "killTimerCase a =
     (case killTimer a of
        None \<Rightarrow> a
      | Some d \<Rightarrow> a\<lparr>killTimer := None, hubUnreg := hubUnreg a @ [name (topic a)]\<rparr>)"

datatype Event =
  Reg ClientComMessage bool
  | Unreg ClientComMessage bool
  | ClientMsg ClientComMessage bool
  | ServerMsg ServerComMessage
  | Meta ClientComMessage bool
  | Supd sessionUpdate
  | Proxy ClusterResp "sref option" "sref option"
  | Exit
  | KillTimerFired

fun step :: "Env \<Rightarrow> Event \<Rightarrow> Actor \<Rightarrow> error + Actor" where
  "step env (Reg msg routeErr) a = regCase env msg routeErr a"
| "step env (Unreg msg routeErr) a = unregCase env msg routeErr a"
| "step env (ClientMsg msg routeErr) a = forwardOrReply env ProxyReqBroadcast msg routeErr a"
| "step env (ServerMsg msg) a = Inr (serverMsgCase msg a)"
| "step env (Meta msg routeErr) a = forwardOrReply env ProxyReqMeta msg routeErr a"
| "step env (Supd upd) a = Inr (supdCase upd a)"
| "step env (Proxy msg sess' session) a = proxyMasterResponse env msg sess' session a"
| "step env Exit a = Inr (exitCase a)"
| "step env KillTimerFired a = Inr (killTimerCase a)"

text \<open>\<^verbatim>\<open>runProxy\<close> on the events its channels deliver, in order: the timer is created
  and stopped, then the loop handles one event after the other until the exit event.\<close>

fun runLoop :: "Env \<Rightarrow> Event list \<Rightarrow> Actor \<Rightarrow> error + Actor" where
  "runLoop env [] a = Inr a"
| "runLoop env (e # es) a =
     (if exited a then Inr a else bindE (step env e a) (runLoop env es))"

definition runProxy :: "Env \<Rightarrow> Event list \<Rightarrow> Actor \<Rightarrow> error + Actor" where
  "runProxy env es a = runLoop env es (a\<lparr>killTimer := None\<rparr>)"

subsection \<open>Eviction as the specification words it\<close>

text \<open>A session evicted from topic \<open>tn\<close> is detached on the session side and is sent
  the eviction message unless its sid is the message's SkipSid.\<close>

definition evictedSession :: "string \<Rightarrow> ServerComMessage \<Rightarrow> Session \<Rightarrow> Session" where
  "evictedSession tn m x =
     (if sid x \<noteq> SkipSid m
      then x\<lparr>subs := (subs x)(tn := None), outq := outq x @ [SrvOut m]\<rparr>
      else x\<lparr>subs := (subs x)(tn := None)\<rparr>)"

subsection \<open>The idle timer's invariant\<close>

text \<open>While a session is attached the kill timer is not armed.\<close>

definition timerInv :: "Actor \<Rightarrow> bool" where
  "timerInv a = (sessions (topic a) \<noteq> [] \<longrightarrow> killTimer a = None)"

subsection \<open>Concrete states for the examples\<close>

definition exParse :: "string \<Rightarrow> Uid" where
  "exParse u = (if u = ''usrA'' then 5 else if u = ''usrB'' then 7 else 0)"

definition exUserId :: "Uid \<Rightarrow> string" where
  "exUserId u = (if u = 5 then ''usrA'' else if u = 7 then ''usrB'' else [])"

definition exOriginal :: "Topic \<Rightarrow> Uid \<Rightarrow> string" where
  "exOriginal t u = xoriginal t"

definition exMutation :: "AccessMode \<Rightarrow> string \<Rightarrow> AccessMode option" where
  "exMutation m d = Some m"

definition exGrpToChn :: "string \<Rightarrow> string" where
  "exGrpToChn n = ''chn'' @ drop 3 n"

definition exIsChannel :: "string \<Rightarrow> bool" where
  "exIsChannel n = (take 3 n = ''chn'')"

definition exEnv :: Env where
  "exEnv = \<lparr>ParseUserId = exParse, UserId = exUserId, GrpToChn = exGrpToChn,
            IsChannel = exIsChannel, original = exOriginal, ApplyMutation = exMutation,
            idleProxyTopicTimeout = 5, queueOutNilReceiverOk = False\<rparr>"

text \<open>The same environment with a \<^verbatim>\<open>queueOut\<close> that returns on a nil receiver.\<close>

definition exEnvNilOk :: Env where
  "exEnvNilOk = exEnv\<lparr>queueOutNilReceiverOk := True\<rparr>"

definition exSub :: Subscription where
  "exSub = \<lparr>broadcast = 10, doneCh = 11, subMeta = 12, subSupd = 13\<rparr>"

text \<open>Session 1 (sid1, user 5) and session 2 (sid7, user 5) hold a subscription for the
  topic; every other address is a session of user 7 without one.\<close>

definition exHeap :: "sref \<Rightarrow> Session" where
  "exHeap s =
     (if s = 1
      then \<lparr>sid = ''sid1'', suid = 5, userAgent = [], subs = [''grpXYZ'' \<mapsto> exSub],
            outq = [], inflightReqs = Some 0\<rparr>
      else if s = 2
      then \<lparr>sid = ''sid7'', suid = 5, userAgent = [], subs = [''grpXYZ'' \<mapsto> exSub],
            outq = [], inflightReqs = None\<rparr>
      else \<lparr>sid = ''sid9'', suid = 7, userAgent = [], subs = Map.empty,
            outq = [], inflightReqs = None\<rparr>)"

definition exTopic :: "(sref \<times> perSessionData) list \<Rightarrow> Topic" where
  "exTopic ss =
     \<lparr>name = ''grpXYZ'', xoriginal = ''grpXYZ'', cat = TopicCatGrp, isChan = False,
      lastID = 5, inactive = False, sessions = ss, perUser = Map.empty,
      clientMsg = 10, unreg = 11, meta = 12, supd = 13\<rparr>"

definition exActor :: "(sref \<times> perSessionData) list \<Rightarrow> Actor" where
  "exActor ss =
     \<lparr>topic = exTopic ss, killTimer = None, heap = exHeap, routed = [], hubUnreg = [],
      exited = False\<rparr>"

definition exLeave :: "bool \<Rightarrow> string \<Rightarrow> sref option \<Rightarrow> ClientComMessage" where
  "exLeave i u so = \<lparr>Leave = Some (), Original = [], AsUser = u, init = i, sess = so\<rparr>"

definition exCtrl :: "int \<Rightarrow> string \<Rightarrow> Uid \<Rightarrow> string \<Rightarrow> ServerComMessage" where
  "exCtrl code txt u skip =
     \<lparr>Ctrl = Some \<lparr>Code = code, Text = txt, CtrlTopic = ''grpXYZ''\<rparr>, Data = None,
      Pres = None, Info = None, muid = u, SkipSid = skip, srvSess = None\<rparr>"

definition exResp :: "ServerComMessage \<Rightarrow> string \<Rightarrow> ProxyReqType \<Rightarrow> ClusterResp" where
  "exResp m osid req = \<lparr>SrvMsg = Some m, OrigSid = osid, OrigReqType = req\<rparr>"

definition exData :: "int \<Rightarrow> ServerComMessage" where
  "exData n =
     \<lparr>Ctrl = None, Data = Some \<lparr>SeqId = n\<rparr>, Pres = None, Info = None, muid = 0,
      SkipSid = [], srvSess = None\<rparr>"

text \<open>Reading a result: the attached sessions, whether the handler returned, the last
  sequence id, the timer, with a fixed answer when it failed.\<close>

definition lastIDAfter :: "error + Actor \<Rightarrow> int option" where
  "lastIDAfter r = (case r of Inl e \<Rightarrow> None | Inr a \<Rightarrow> Some (lastID (topic a)))"

definition sessionsAfter :: "error + Actor \<Rightarrow> (sref \<times> perSessionData) list" where
  "sessionsAfter r = (case r of Inl e \<Rightarrow> [] | Inr a \<Rightarrow> sessions (topic a))"

definition timerAfter :: "error + Actor \<Rightarrow> nat option option" where
  "timerAfter r = (case r of Inl e \<Rightarrow> None | Inr a \<Rightarrow> Some (killTimer a))"

definition returned :: "error + Actor \<Rightarrow> bool" where
  "returned r = (case r of Inl e \<Rightarrow> False | Inr a \<Rightarrow> True)"

section \<open>Server shutdown (listenAndServe in server/http.go)\<close>

text \<open>The calls \<^verbatim>\<open>listenAndServe\<close> makes on other subsystems and the channel operations
  it blocks on, as events. \<open>HttpShutdown n\<close> is \<^verbatim>\<open>server.Shutdown\<close> under a context that
  times out after \<open>n\<close> seconds.\<close>

datatype Teardown =
  SetShuttingDown
  | HttpShutdown nat
  | SessionStoreShutdown
  | AwaitHttpDone
  | CancelShutdownCtx
  | ClusterShutdown
  | PluginsShutdown
  | GrpcStop
  | StatsShutdown
  | HubShutdownSend
  | AwaitHubDone
  | UsersShutdown

text \<open>The globals the function touches, with the events so far, oldest first.
  \<open>grpcServer\<close> tells whether \<^verbatim>\<open>globals.grpcServer\<close> is set.\<close>

record Globals =
  shuttingDown :: bool
  grpcServer :: bool
  performed :: "Teardown list"

definition perform :: "Teardown \<Rightarrow> Globals \<Rightarrow> Globals" where
  "perform x g = g\<lparr>performed := performed g @ [x]\<rparr>"

text \<open>The \<^verbatim>\<open>case <-stop\<close> arm, statement by statement.\<close>

definition stopCase :: "Globals \<Rightarrow> Globals" where
  "stopCase g =
     (let g1 = perform SetShuttingDown (g\<lparr>shuttingDown := True\<rparr>);
          g2 = perform (HttpShutdown 2) g1;
          g3 = perform SessionStoreShutdown g2;
          g4 = perform AwaitHttpDone g3;
          g5 = perform CancelShutdownCtx g4;
          g6 = perform ClusterShutdown g5;
          g7 = perform PluginsShutdown g6;
          g8 = (if grpcServer g7 then perform GrpcStop g7 else g7);
          g9 = perform StatsShutdown g8;
          g10 = perform HubShutdownSend g9;
          g11 = perform AwaitHubDone g10
      in perform UsersShutdown g11)"

datatype Selected = StopSignal | HttpDone

text \<open>The function from the point where the listener goroutine is started: the flag is
  cleared, then the select takes the channel that is ready; both arms leave the loop and
  the function returns.\<close>

definition listenAndServe :: "Selected \<Rightarrow> Globals \<Rightarrow> Globals" where
  "listenAndServe sel g =
     (let g0 = g\<lparr>shuttingDown := False\<rparr> in
      case sel of
        StopSignal \<Rightarrow> stopCase g0
      | HttpDone \<Rightarrow> g0)"

section \<open>Large files (the file of the media handlers)\<close>

subsection \<open>Garbage collection of unused uploads\<close>

text \<open>\<^verbatim>\<open>time.Duration\<close> is a signed 64-bit count of nanoseconds: sums wrap around,
  \<^verbatim>\<open>>>\<close> is the arithmetic shift.\<close>

definition int64 :: "int \<Rightarrow> int" where
  "int64 x = (x + 2 ^ 63) mod 2 ^ 64 - 2 ^ 63"

definition hour :: int where
  "hour = 3600 * 1000000000"

text \<open>The first statement of the goroutine. \<open>r\<close> is the value \<^verbatim>\<open>rand.Intn\<close> returned;
  \<^verbatim>\<open>rand.Intn(n)\<close> panics unless \<open>n\<close> is positive.\<close>

definition jitteredPeriod :: "int \<Rightarrow> int \<Rightarrow> error + int" where
  "jitteredPeriod period r =
     (if period div 2 \<le> 0 then Inl Panic
      else Inr (int64 (int64 (period div 2 + period div 4) + r)))"

text \<open>\<^verbatim>\<open>time.Tick(d)\<close>: no ticker (a nil channel) for a non-positive \<open>d\<close>, otherwise
  a ticker of interval \<open>d\<close>.\<close>

definition Tick :: "int \<Rightarrow> int option" where
  "Tick d = (if d \<le> 0 then None else Some d)"

text \<open>The first two statements of the goroutine: the ticker it creates.\<close>

definition gcTicker :: "int \<Rightarrow> int \<Rightarrow> error + int option" where
  "gcTicker period r =
     (case jitteredPeriod period r of
        Inl e \<Rightarrow> Inl e
      | Inr d \<Rightarrow> Inr (Tick d))"

text \<open>A stored file as the collector sees it: whether it was ever attached to a message
  or topic, and when it entered its present state.\<close>

record FileDef =
  fileId :: string
  attached :: bool
  updatedAt :: int

text \<open>Modelled from the spec: \<^verbatim>\<open>store.Files.DeleteUnused(olderThan, limit)\<close> is not
  among the sources; it deletes "at most \<open>blockSize\<close> files that have been in uploaded
  but never attached state" since \<open>olderThan\<close> or longer. The result is the files
  deleted and the files left.\<close>

definition unusedSince :: "int \<Rightarrow> FileDef \<Rightarrow> bool" where
  "unusedSince t f = (\<not> attached f \<and> updatedAt f \<le> t)"

definition DeleteUnused :: "int \<Rightarrow> int \<Rightarrow> FileDef list \<Rightarrow> FileDef list \<times> FileDef list" where
  "DeleteUnused t lim fs =
     (let deleted = take (nat lim) (filter (unusedSince t) fs)
      in (deleted, filter (\<lambda>f. f \<notin> set deleted) fs))"

datatype GcEvent = GcTick int | GcStop

text \<open>The loop of the goroutine on the events its two channels deliver; \<open>GcTick now\<close>
  is a tick received at time \<open>now\<close>, which is what \<^verbatim>\<open>time.Now()\<close> then reads. The
  result is, for every tick handled, its time and the files deleted on it, then the
  files left and whether the goroutine returned. An error of \<^verbatim>\<open>DeleteUnused\<close> is only
  logged.\<close>

fun gcLoop ::
  "int \<Rightarrow> GcEvent list \<Rightarrow> FileDef list \<Rightarrow> (int \<times> FileDef list) list \<times> FileDef list \<times> bool"
where
  "gcLoop blockSize [] fs = ([], fs, False)"
| "gcLoop blockSize (GcTick now # es) fs =
     (case DeleteUnused (now - hour) blockSize fs of
        (deleted, fs1) \<Rightarrow>
          (case gcLoop blockSize es fs1 of
             (log, fs2, stopped) \<Rightarrow> ((now, deleted) # log, fs2, stopped)))"
| "gcLoop blockSize (GcStop # es) fs = ([], fs, True)"

text \<open>What a ticker created at time \<open>t0\<close> delivers up to its \<open>n\<close>-th tick: tick \<open>k\<close>
  (from 1) comes \<open>k\<close> intervals after \<open>t0\<close>; a nil channel never delivers.\<close>

definition tickerEvents :: "int option \<Rightarrow> int \<Rightarrow> nat \<Rightarrow> GcEvent list" where
  "tickerEvents tk t0 n =
     (case tk of
        None \<Rightarrow> []
      | Some d \<Rightarrow> map GcTick (map (\<lambda>k. t0 + int k * d) [1..<Suc n]))"

text \<open>\<^verbatim>\<open>largeFileRunGarbageCollection\<close> started at time \<open>t0\<close> on the files \<open>fs\<close>, with
  the random draw \<open>r\<close>, and stopped through the returned channel after \<open>n\<close> ticks.\<close>

definition largeFileRunGarbageCollection ::
  "int \<Rightarrow> int \<Rightarrow> int \<Rightarrow> int \<Rightarrow> nat \<Rightarrow> FileDef list \<Rightarrow>
   error + ((int \<times> FileDef list) list \<times> FileDef list \<times> bool)" where
  "largeFileRunGarbageCollection period blockSize r t0 n fs =
     (case gcTicker period r of
        Inl e \<Rightarrow> Inl e
      | Inr tk \<Rightarrow> Inr (gcLoop blockSize (tickerEvents tk t0 n @ [GcStop]) fs))"

definition gcTickTimes ::
  "error + ((int \<times> FileDef list) list \<times> FileDef list \<times> bool) \<Rightarrow> int list" where
  "gcTickTimes x = (case x of Inl e \<Rightarrow> [] | Inr (log, fs, stopped) \<Rightarrow> map fst log)"

text \<open>Three stored files at time 0 of the examples: one unattached for two hours, one
  attached, one unattached for a minute.\<close>

definition exFiles :: "FileDef list" where
  "exFiles =
     [\<lparr>fileId = ''old'', attached = False, updatedAt = - 2 * hour\<rparr>,
      \<lparr>fileId = ''used'', attached = True, updatedAt = - 2 * hour\<rparr>,
      \<lparr>fileId = ''new'', attached = False, updatedAt = - 60000000000\<rparr>]"

subsection \<open>Receiving an upload\<close>

text \<open>What \<^verbatim>\<open>largeFileReceive\<close> writes back: the control messages it builds (their
  constructors are outside the sources; the message id is kept, the timestamp left out),
  or a bare status with or without a Ctrl body.\<close>

datatype Response =
  ErrOperationNotAllowed
  | ErrAPIKeyRequired
  | StoreError string string
  | InfoChallenge string
  | ErrAuthRequired string
  | ErrTooLarge string
  | ErrMalformed string
  | ErrUnknown string
  | NoErrParams string "(string \<times> string) list"
  | StatusOnly int
  | StatusWithCtrl int

text \<open>Calls on the media handler and the file store, oldest first. \<open>BackendUpload\<close>
  carries the MIME type of the file definition.\<close>

datatype BackendCall =
  BackendUpload string
  | FinishUpload bool int
  | BackendDelete

text \<open>The multipart file part: its bytes, its Content-Type header, and whether reading
  or seeking it meets an I/O error.\<close>

record FilePart =
  content :: string
  partContentType :: string
  readFails :: bool
  seekFails :: bool

text \<open>The request together with everything the handler asks of code outside the
  sources: the API key check, \<^verbatim>\<open>authHttpRequest\<close> (uid, challenge, error), the media
  handler's \<^verbatim>\<open>Headers\<close> (error or status), \<^verbatim>\<open>req.FormFile\<close> (error text or file part),
  \<^verbatim>\<open>http.DetectContentType\<close>, the media type parser and formatter, the handler's
  \<^verbatim>\<open>Upload\<close> (error or url and size), \<^verbatim>\<open>Files.FinishUpload\<close> (error or none), and the
  expiry text for the configured GC period (\<open>None\<close> when the period is not positive).\<close>

record Upload =
  Method :: string
  apiKeyValid :: bool
  formId :: string
  formTopic :: string
  authUid :: Uid
  authChallenge :: bool
  authErr :: "string option"
  headersErr :: "string option"
  headersStatus :: int
  formFile :: "string + FilePart"
  DetectContentType :: "string \<Rightarrow> string"
  ParseMediaType :: "string \<Rightarrow> (string \<times> (string \<times> string) list) option"
  FormatMediaType :: "string \<Rightarrow> (string \<times> string) list \<Rightarrow> string"
  uploadResult :: "string + (string \<times> int)"
  finishErr :: "string option"
  expires :: "string option"

definition allowedMimeTypes :: "string list" where
  "allowedMimeTypes = [''application/'', ''audio/'', ''font/'', ''image/'', ''text/'', ''video/'']"

fun HasPrefix :: "string \<Rightarrow> string \<Rightarrow> bool" where
  "HasPrefix s [] = True"
| "HasPrefix [] (p # ps) = False"
| "HasPrefix (c # cs) (p # ps) = (c = p \<and> HasPrefix cs ps)"

fun Contains :: "string \<Rightarrow> string \<Rightarrow> bool" where
  "Contains [] sub = (sub = [])"
| "Contains (c # cs) sub = (HasPrefix (c # cs) sub \<or> Contains cs sub)"

text \<open>\<^verbatim>\<open>file.Read(buff)\<close> into the zeroed 512-byte buffer: an error when the part has no
  byte to give (end of file at once) or the read fails, otherwise the buffer, which
  keeps its zero bytes behind what was read.\<close>

definition readHead :: "FilePart \<Rightarrow> string option" where
  "readHead f =
     (if readFails f \<or> content f = [] then None
      else Some (take 512 (content f) @ replicate (512 - length (content f)) (CHR 0x00)))"

definition resolveMime :: "Upload \<Rightarrow> FilePart \<Rightarrow> string \<Rightarrow> string" where
  "resolveMime u f buff =
     (let mimeType = DetectContentType u buff in
      if mimeType = ''application/octet-stream''
      then (case ParseMediaType u (partContentType f) of
              None \<Rightarrow> mimeType
            | Some (userContentType, params) \<Rightarrow>
                if list_ex (HasPrefix userContentType) allowedMimeTypes
                then (let formatted = FormatMediaType u userContentType params in
                      if formatted \<noteq> [] then formatted else mimeType)
                else mimeType)
      else mimeType)"

definition largeFileReceive :: "Upload \<Rightarrow> Response \<times> BackendCall list" where
  "largeFileReceive u =
     (if Method u = ''OPTIONS''
      then (case headersErr u of
              Some e \<Rightarrow> (StoreError e [], [])
            | None \<Rightarrow>
                (StatusOnly (if headersStatus u \<le> 0 then 204 else headersStatus u), []))
      else if Method u \<noteq> ''POST'' \<and> Method u \<noteq> ''PUT'' \<and> Method u \<noteq> ''HEAD''
      then (ErrOperationNotAllowed, [])
      else if \<not> apiKeyValid u then (ErrAPIKeyRequired, [])
      else case authErr u of
        Some e \<Rightarrow> (StoreError e (formId u), [])
      | None \<Rightarrow>
          if authChallenge u then (InfoChallenge (formId u), [])
          else if authUid u = 0 \<and> formTopic u \<noteq> ''newacc'' then (ErrAuthRequired (formId u), [])
          else case headersErr u of
            Some e \<Rightarrow> (StoreError e [], [])
          | None \<Rightarrow>
              if headersStatus u \<noteq> 0
              then (if Method u = ''POST'' \<or> Method u = ''PUT''
                    then (StatusWithCtrl (headersStatus u), [])
                    else (StatusOnly (headersStatus u), []))
              else if Method u = ''HEAD'' \<or> Method u = ''OPTIONS'' then (StatusOnly 200, [])
              else case formFile u of
                Inl e \<Rightarrow>
                  if Contains e ''request body too large'' then (ErrTooLarge (formId u), [])
                  else (ErrMalformed (formId u), [])
              | Inr f \<Rightarrow>
                  (case readHead f of
                     None \<Rightarrow> (ErrUnknown (formId u), [])
                   | Some buff \<Rightarrow>
                       let mimeType = resolveMime u f buff in
                       if seekFails f then (ErrUnknown (formId u), [])
                       else case uploadResult u of
                         Inl e \<Rightarrow>
                           (StoreError e (formId u),
                            [BackendUpload mimeType, FinishUpload False 0])
                       | Inr (url, sz) \<Rightarrow>
                           (case finishErr u of
                              Some e \<Rightarrow>
                                (StoreError e (formId u),
                                 [BackendUpload mimeType, FinishUpload True sz,
                                  BackendDelete])
                            | None \<Rightarrow>
                                (NoErrParams (formId u)
                                   ((''url'', url) #
                                    (case expires u of
                                       None \<Rightarrow> []
                                     | Some x \<Rightarrow> [(''expires'', x)])),
                                 [BackendUpload mimeType, FinishUpload True sz]))))"

text \<open>An upload of the given file part that passes every check before the part is
  read: POST with a valid API key, authenticated as user 5, no short-circuit by the media
  handler, every backend call succeeding.\<close>

definition exDetect :: "string \<Rightarrow> string" where
  "exDetect b = ''application/octet-stream''"

definition exParseMedia :: "string \<Rightarrow> (string \<times> (string \<times> string) list) option" where
  "exParseMedia h = (if h = [] then None else Some (h, []))"

definition exFormatMedia :: "string \<Rightarrow> (string \<times> string) list \<Rightarrow> string" where
  "exFormatMedia t ps = t"

definition exUpload :: "string \<Rightarrow> Upload" where
  "exUpload bytes =
     \<lparr>Method = ''POST'', apiKeyValid = True, formId = ''42'', formTopic = [], authUid = 5,
      authChallenge = False, authErr = None, headersErr = None, headersStatus = 0,
      formFile = Inr \<lparr>content = bytes, partContentType = ''text/plain'',
                      readFails = False, seekFails = False\<rparr>,
      DetectContentType = exDetect, ParseMediaType = exParseMedia,
      FormatMediaType = exFormatMedia, uploadResult = Inr (''/v0/file/s/abc'', 3),
      finishErr = None, expires = None\<rparr>"

section \<open>Properties of the request authentication\<close>

subsection \<open>Splitting\<close>

lemma Split_nonempty: "Split s sep \<noteq> []"
  by (induction s) (auto split: list.splits)

lemma length_Split: "length (Split s sep) = Suc (count_list s sep)"
  by (induction s) (auto split: list.splits simp: Split_nonempty)

lemma Split_hd: "hd (Split s sep) = takeWhile (\<lambda>c. c \<noteq> sep) s"
  by (induction s) (auto split: list.splits simp: Split_nonempty)

lemma Split_no_sep: "count_list s sep = 0 \<Longrightarrow> Split s sep = [s]"
  by (induction s) (auto split: list.splits if_splits)

lemma Split_one_sep:
  "count_list s sep = 1 \<Longrightarrow>
   Split s sep = [takeWhile (\<lambda>c. c \<noteq> sep) s, tl (dropWhile (\<lambda>c. c \<noteq> sep) s)]"
proof (induction s)
  case Nil
  then show ?case by simp
next
  case (Cons c cs)
  show ?case
  proof (cases "c = sep")
    case True
    with Cons.prems have "count_list cs sep = 0" by simp
    with True show ?thesis by (simp add: Split_no_sep)
  next
    case False
    with Cons.prems have "count_list cs sep = 1" by simp
    with False Cons.IH show ?thesis by simp
  qed
qed

lemma Split_two_iff: "length (Split s sep) = 2 \<longleftrightarrow> count_list s sep = 1"
  by (simp add: length_Split)

lemma headerPair_Split:
  "headerPair v =
     (if length (Split v CHR '' '') = 2
      then Some (Split v CHR '' '' ! 0, Split v CHR '' '' ! 1) else None)"
  by (simp add: headerPair_def Split_two_iff Split_one_sep)

lemma firstValue_spec: "firstValue vs = specValue vs"
  by (cases vs) (simp_all add: firstValue_def specValue_def)

lemma Replace_spec: "Replace s = specRewrite s"
  by (simp add: Replace_def specRewrite_def urlToStd_def specSubstitution_def)

lemma map_of_spec: "map_of cs k = specCookie cs k"
proof (induction cs)
  case Nil
  show ?case by (simp add: specCookie_def)
next
  case (Cons c cs)
  then show ?case by (cases c) (simp add: specCookie_def)
qed

text \<open>
  Claim C5. For every request, \<open>getHttpAuth\<close> returns the first well-formed
  (method, secret) pair in the fixed order: header X-Tinode-Auth (exactly one space: the
  text before it and the text after it), header Authorization (the same), the query
  parameters auth and secret with \<open>-\<close> rewritten to \<open>+\<close> and \<open>_\<close> to \<open>/\<close> in the
  secret, the form values auth and secret, the cookie pair auth and secret; when no
  source matches both results are empty.
\<close>

theorem getHttpAuth_first_wellformed:
  "getHttpAuth req = firstPair (authSources req)"
  by (simp add: getHttpAuth_def authSources_def headerPair_Split queryPair_def
      formPair_def cookiePair_def Let_def HeaderGet_def QueryGet_def FormValue_def
      Cookie_def firstValue_spec Replace_spec map_of_spec split: option.splits)

text \<open>On the example requests: the query pair wins over the cookies and its secret is
  rewritten; an Authorization header wins over the query.\<close>

theorem getHttpAuth_first_wellformed_witness:
  "getHttpAuth (exRequest exNoValues) = (''token'', ''a+b/c'')
   \<and> getHttpAuth (exRequest exAuthHeader) = (''basic'', ''dXNlcg=='')"
  using getHttpAuth_first_wellformed[of "exRequest exNoValues"]
        getHttpAuth_first_wellformed[of "exRequest exAuthHeader"]
  by (simp add: authSources_def exRequest_def exNoValues_def exAuthHeader_def exQuery_def
      headerPair_def queryPair_def specValue_def specRewrite_def specSubstitution_def)

section \<open>Properties of the proxy topic actor\<close>

subsection \<open>Helpers\<close>

lemma updSession_simps:
  "topic (updSession s f a) = topic a"
  "killTimer (updSession s f a) = killTimer a"
  "routed (updSession s f a) = routed a"
  "hubUnreg (updSession s f a) = hubUnreg a"
  "exited (updSession s f a) = exited a"
  "heap (updSession s f a) s' = (if s' = s then f (heap a s) else heap a s')"
  by (simp_all add: updSession_def)

lemma remSession_match:
  "map_of (sessions t) s = Some pssd \<Longrightarrow> uid pssd = u \<Longrightarrow>
   remSession t (Some s) u = (Some pssd, True, t\<lparr>sessions := AList.delete s (sessions t)\<rparr>)"
  by (simp add: remSession_def)

lemma remSession_absent:
  "map_of (sessions t) s = None \<Longrightarrow> remSession t (Some s) u = (None, False, t)"
  by (simp add: remSession_def)

lemma ex_simps:
  "sess (exLeave i u so) = so" "init (exLeave i u so) = i" "AsUser (exLeave i u so) = u"
  "Original (exLeave i u so) = []"
  "topic (exActor ss) = exTopic ss" "sessions (exTopic ss) = ss" "heap (exActor ss) = exHeap"
  "killTimer (exActor ss) = None" "name (exTopic ss) = ''grpXYZ''"
  "routed (exActor ss) = []" "inactive (exTopic ss) = False" "lastID (exTopic ss) = 5"
  "ParseUserId exEnv = exParse" "idleProxyTopicTimeout exEnv = 5"
  "queueOutNilReceiverOk exEnv = False"
  "SrvMsg (exResp m osid req) = Some m" "OrigSid (exResp m osid req) = osid"
  "OrigReqType (exResp m osid req) = req"
  "Ctrl (exCtrl code txt v skip) = Some \<lparr>Code = code, Text = txt, CtrlTopic = ''grpXYZ''\<rparr>"
  "Data (exCtrl code txt v skip) = None" "Pres (exCtrl code txt v skip) = None"
  "Info (exCtrl code txt v skip) = None" "muid (exCtrl code txt v skip) = v"
  "SkipSid (exCtrl code txt v skip) = skip"
  by (simp_all add: exLeave_def exActor_def exTopic_def exEnv_def exResp_def exCtrl_def)

subsection \<open>Leave requests\<close>

lemma handleProxyLeaveRequest_unknown:
  assumes "lookupSess (topic a) (sess msg) = None"
      and "init msg \<longrightarrow> ParseUserId env (AsUser msg) = 0"
  shows "handleProxyLeaveRequest env msg routeErr a = Inr (False, msg, a)"
  using assms by (simp add: handleProxyLeaveRequest_def Let_def)

lemma handleProxyLeaveRequest_match:
  assumes "sess msg = Some s"
      and "map_of (sessions (topic a)) s = Some pssd"
      and "init msg \<and> ParseUserId env (AsUser msg) \<noteq> 0
             \<longrightarrow> ParseUserId env (AsUser msg) = uid pssd"
  shows "\<exists>msg' a'. handleProxyLeaveRequest env msg routeErr a = Inr (True, msg', a')
           \<and> sess msg' = Some s \<and> map_of (sessions (topic a')) s = None
           \<and> subs (heap a' s) (name (topic a)) = None"
  using assms
  by (auto simp add: handleProxyLeaveRequest_def Let_def lookupSess_def remSession_match
      bindE_def delSub_def updSession_simps clusterCall_def AList.delete_conv')

lemma handleProxyLeaveRequest_absent:
  assumes "sess msg = Some s"
      and "map_of (sessions (topic a)) s = None"
  shows "\<exists>ok msg' a'. handleProxyLeaveRequest env msg routeErr a = Inr (ok, msg', a')
           \<and> sess msg' = Some s \<and> map_of (sessions (topic a')) s = None"
  using assms
  by (auto simp add: handleProxyLeaveRequest_def Let_def lookupSess_def remSession_absent
      bindE_def clusterCall_def)

lemma unregCase_tail:
  assumes "handleProxyLeaveRequest env msg routeErr a = Inr (ok, msg', a1)"
      and "sess msg' = Some s"
  shows "\<exists>a'. unregCase env msg routeErr a = Inr a' \<and> topic a' = topic a1
            \<and> killTimer a' = killTimer a1
            \<and> subs (heap a' s) = subs (heap a1 s)"
  using assms
  by (auto simp add: unregCase_def bindE_def queueOut_def enqueue_def inflightDone_def
      updSession_simps)

subsection \<open>Responses\<close>

lemma updateAcs_frame:
  "updateAcsFromPresMsg env pres t = Inr t1 \<Longrightarrow>
   sessions t1 = sessions t \<and> name t1 = name t \<and> lastID t1 = lastID t
     \<and> inactive t1 = inactive t"
  by (auto simp add: updateAcsFromPresMsg_def Let_def split: if_splits option.splits)

lemma updateAcs_ok:
  "Acs pres \<noteq> None \<Longrightarrow> \<exists>t1. updateAcsFromPresMsg env pres t = Inr t1"
  by (auto simp add: updateAcsFromPresMsg_def Let_def split: option.splits)

lemma presAcs_ok:
  "\<exists>a1. presAcs env m a = Inr a1 \<and> sessions (topic a1) = sessions (topic a)
      \<and> killTimer a1 = killTimer a \<and> heap a1 = heap a
      \<and> lastID (topic a1) = lastID (topic a)
      \<and> inactive (topic a1) = inactive (topic a) \<and> name (topic a1) = name (topic a)
      \<and> routed a1 = routed a \<and> hubUnreg a1 = hubUnreg a \<and> exited a1 = exited a"
proof (cases "Pres m")
  case None
  then show ?thesis by (simp add: presAcs_def)
next
  case (Some pres)
  show ?thesis
  proof (cases "What pres = ''acs'' \<and> Acs pres \<noteq> None")
    case True
    then obtain t1 where t1: "updateAcsFromPresMsg env pres (topic a) = Inr t1"
      using updateAcs_ok by blast
    from updateAcs_frame[OF t1] t1 Some True show ?thesis
      by (simp add: presAcs_def bindE_def)
  next
    case False
    with Some show ?thesis by (auto simp add: presAcs_def)
  qed
qed

lemma leaveResponse_refused:
  "Ctrl m = Some c \<Longrightarrow> 300 \<le> Code c \<Longrightarrow>
   sessions (topic (leaveResponse env m sess' a)) = sessions (topic a)"
  by (simp add: leaveResponse_def Let_def)

lemma leave_refused_keeps_sessions:
  assumes "SrvMsg resp = Some m" "Ctrl m = Some c" "300 \<le> Code c" "OrigSid resp \<noteq> ''*''"
    "OrigReqType resp = ProxyReqLeave"
  shows "\<exists>a'. proxyMasterResponse env resp sess' session a = Inr a'
            \<and> sessions (topic a') = sessions (topic a)"
proof -
  obtain a1 where a1: "presAcs env m a = Inr a1" "sessions (topic a1) = sessions (topic a)"
    using presAcs_ok by blast
  show ?thesis
    using assms a1 leaveResponse_refused[of m c env sess' a1]
    by (cases sess')
      (simp_all add: proxyMasterResponse_def bindE_def Let_def enqueue_def updSession_simps)
qed

text \<open>
  Claim C9. An unreg event for a session that is not in the topic's session set and
  whose resolved uid is zero (the event is not client-initiated, or its AsUser does not
  parse to a uid) makes no call on the cluster and leaves the topic and the timer as
  they were; the session is sent the ErrClusterUnreachable reply.
\<close>

theorem unreg_unknown_session_no_cluster_call:
  assumes "sess msg = Some s"
      and "map_of (sessions (topic a)) s = None"
      and "init msg \<longrightarrow> ParseUserId env (AsUser msg) = 0"
  shows "\<exists>a'. unregCase env msg routeErr a = Inr a'
           \<and> routed a' = routed a
           \<and> topic a' = topic a
           \<and> killTimer a' = killTimer a
           \<and> hubUnreg a' = hubUnreg a
           \<and> outq (heap a' s) = outq (heap a s) @ [ErrClusterUnreachableReply msg]
           \<and> subs (heap a' s) = subs (heap a s)
           \<and> (\<forall>s'. s' \<noteq> s \<longrightarrow> heap a' s' = heap a s')"
proof -
  have l: "lookupSess (topic a) (sess msg) = None"
    using assms(1,2) by (simp add: lookupSess_def)
  have h: "handleProxyLeaveRequest env msg routeErr a = Inr (False, msg, a)"
    using l assms(3) by (rule handleProxyLeaveRequest_unknown)
  show ?thesis
    using assms(1)
    by (simp add: unregCase_def h bindE_def queueOut_def enqueue_def inflightDone_def
        updSession_simps)
qed

theorem unreg_unknown_session_no_cluster_call_witness:
  "\<exists>a'. unregCase exEnv (exLeave False [] (Some 3)) True
            (exActor [(1, \<lparr>uid = 5, isChanSub = False\<rparr>)]) = Inr a'
       \<and> routed a' = []
       \<and> sessions (topic a') = [(1, \<lparr>uid = 5, isChanSub = False\<rparr>)]
       \<and> killTimer a' = None
       \<and> outq (heap a' 3) = [ErrClusterUnreachableReply (exLeave False [] (Some 3))]"
  using unreg_unknown_session_no_cluster_call
          [of "exLeave False []  (Some 3)" 3 "exActor [(1, \<lparr>uid = 5, isChanSub = False\<rparr>)]"
              exEnv True]
  by (auto simp add: ex_simps exHeap_def)

text \<open>
  Claim C1, as amended. An unreg event for a session attached to the topic detaches it
  (it leaves the session set and loses its subscription for the topic's name) when the
  uid the leave resolves to is the session's per-session uid, that is unless the event is
  client-initiated with an AsUser that parses to another uid; this does not depend on what
  the forward to the master returns. A session that was not attached stays absent. A
  leave response with a Ctrl code of 300 or more leaves the session set as it is.
\<close>

theorem unreg_detaches_session:
  "(sess msg = Some s \<and> map_of (sessions (topic a)) s = Some pssd
      \<and> (init msg \<and> ParseUserId env (AsUser msg) \<noteq> 0
           \<longrightarrow> ParseUserId env (AsUser msg) = uid pssd)
    \<longrightarrow> (\<exists>a'. unregCase env msg routeErr a = Inr a'
            \<and> map_of (sessions (topic a')) s = None
            \<and> subs (heap a' s) (name (topic a)) = None))
   \<and> (sess msg = Some s \<and> map_of (sessions (topic a)) s = None
    \<longrightarrow> (\<exists>a'. unregCase env msg routeErr a = Inr a'
            \<and> map_of (sessions (topic a')) s = None))
   \<and> (SrvMsg resp = Some m \<and> Ctrl m = Some c \<and> 300 \<le> Code c \<and> OrigSid resp \<noteq> ''*''
        \<and> OrigReqType resp = ProxyReqLeave
    \<longrightarrow> (\<exists>a'. proxyMasterResponse env resp sess' session a = Inr a'
            \<and> sessions (topic a') = sessions (topic a)))"
proof (intro conjI impI)
  assume h: "sess msg = Some s \<and> map_of (sessions (topic a)) s = Some pssd
      \<and> (init msg \<and> ParseUserId env (AsUser msg) \<noteq> 0
           \<longrightarrow> ParseUserId env (AsUser msg) = uid pssd)"
  then obtain msg' a1 where
    r: "handleProxyLeaveRequest env msg routeErr a = Inr (True, msg', a1)"
    and p: "sess msg' = Some s" "map_of (sessions (topic a1)) s = None"
      "subs (heap a1 s) (name (topic a)) = None"
    using handleProxyLeaveRequest_match[of msg s a pssd env routeErr] by blast
  from unregCase_tail[OF r p(1)] p(2,3)
  show "\<exists>a'. unregCase env msg routeErr a = Inr a'
            \<and> map_of (sessions (topic a')) s = None
            \<and> subs (heap a' s) (name (topic a)) = None"
    by auto
next
  assume h: "sess msg = Some s \<and> map_of (sessions (topic a)) s = None"
  then obtain ok msg' a1 where
    r: "handleProxyLeaveRequest env msg routeErr a = Inr (ok, msg', a1)"
    and p: "sess msg' = Some s" "map_of (sessions (topic a1)) s = None"
    using handleProxyLeaveRequest_absent[of msg s a env routeErr] by blast
  from unregCase_tail[OF r p(1)] p(2)
  show "\<exists>a'. unregCase env msg routeErr a = Inr a' \<and> map_of (sessions (topic a')) s = None"
    by auto
next
  assume "SrvMsg resp = Some m \<and> Ctrl m = Some c \<and> 300 \<le> Code c \<and> OrigSid resp \<noteq> ''*''
        \<and> OrigReqType resp = ProxyReqLeave"
  then show "\<exists>a'. proxyMasterResponse env resp sess' session a = Inr a'
            \<and> sessions (topic a') = sessions (topic a)"
    using leave_refused_keeps_sessions by blast
qed

theorem unreg_detaches_session_witness:
  "map_of (sessionsAfter (unregCase exEnv (exLeave False [] (Some 1)) True
       (exActor [(1, \<lparr>uid = 5, isChanSub = False\<rparr>)]))) 1 = None
   \<and> returned (unregCase exEnv (exLeave False [] (Some 1)) True
       (exActor [(1, \<lparr>uid = 5, isChanSub = False\<rparr>)]))
   \<and> returned (unregCase exEnv (exLeave True ''usrB'' (Some 3)) True
       (exActor [(1, \<lparr>uid = 5, isChanSub = False\<rparr>)]))
   \<and> sessionsAfter (proxyMasterResponse exEnv
        (exResp (exCtrl 404 ''not found'' 5 []) ''sid1'' ProxyReqLeave) (Some 1) (Some 1)
        (exActor [(1, \<lparr>uid = 5, isChanSub = False\<rparr>)]))
      = [(1, \<lparr>uid = 5, isChanSub = False\<rparr>)]"
proof -
  have a: "\<exists>a'. unregCase exEnv (exLeave False [] (Some 1)) True
                 (exActor [(1, \<lparr>uid = 5, isChanSub = False\<rparr>)]) = Inr a'
            \<and> map_of (sessions (topic a')) 1 = None"
    using unreg_detaches_session
          [of "exLeave False [] (Some 1)" 1 "exActor [(1, \<lparr>uid = 5, isChanSub = False\<rparr>)]"
              "\<lparr>uid = 5, isChanSub = False\<rparr>" exEnv True, THEN conjunct1]
    by (auto simp add: ex_simps)
  have b: "\<exists>a'. unregCase exEnv (exLeave True ''usrB'' (Some 3)) True
                 (exActor [(1, \<lparr>uid = 5, isChanSub = False\<rparr>)]) = Inr a'"
    using unreg_detaches_session
          [of "exLeave True ''usrB'' (Some 3)" 3
              "exActor [(1, \<lparr>uid = 5, isChanSub = False\<rparr>)]" _ exEnv True,
           THEN conjunct2, THEN conjunct1]
    by (auto simp add: ex_simps)
  have c: "\<exists>a'. proxyMasterResponse exEnv
        (exResp (exCtrl 404 ''not found'' 5 []) ''sid1'' ProxyReqLeave) (Some 1) (Some 1)
        (exActor [(1, \<lparr>uid = 5, isChanSub = False\<rparr>)]) = Inr a'
        \<and> sessions (topic a') = [(1, \<lparr>uid = 5, isChanSub = False\<rparr>)]"
    using unreg_detaches_session
          [of _ _ "exActor [(1, \<lparr>uid = 5, isChanSub = False\<rparr>)]" _ exEnv _
              "exResp (exCtrl 404 ''not found'' 5 []) ''sid1'' ProxyReqLeave"
              "exCtrl 404 ''not found'' 5 []"
              "\<lparr>Code = 404, Text = ''not found'', CtrlTopic = ''grpXYZ''\<rparr>" "Some 1" "Some 1",
           THEN conjunct2, THEN conjunct2]
    by (auto simp add: ex_simps)
  from a b c show ?thesis
    by (auto simp add: sessionsAfter_def returned_def)
qed

text \<open>The claim as first worded fails: a client-initiated leave as user 7 for a session
  attached as user 5 leaves that session attached.\<close>

theorem unreg_as_other_user_keeps_session:
  "map_of (sessionsAfter (unregCase exEnv (exLeave True ''usrB'' (Some 1)) False
       (exActor [(1, \<lparr>uid = 5, isChanSub = False\<rparr>)]))) 1
   = Some \<lparr>uid = 5, isChanSub = False\<rparr>"
  by (simp add: unregCase_def handleProxyLeaveRequest_def ex_simps exParse_def Let_def
      remSession_def bindE_def sessionsAfter_def clusterCall_def queueOut_def enqueue_def
      updSession_simps inflightDone_def exHeap_def lookupSess_def)

lemma handleProxyLeaveRequest_nil:
  assumes "sess msg = None"
  shows "\<exists>msg' a'. handleProxyLeaveRequest env msg routeErr a = Inr (False, msg', a')
            \<and> sess msg' = None \<and> (init msg \<longrightarrow> init msg')"
  using assms
  by (auto simp add: handleProxyLeaveRequest_def Let_def lookupSess_def remSession_def bindE_def)

lemma handleProxyLeaveRequest_sess:
  assumes "sess msg = Some s"
  shows "\<exists>ok msg' a'. handleProxyLeaveRequest env msg routeErr a = Inr (ok, msg', a')
            \<and> sess msg' = Some s"
  using assms
  by (auto simp add: handleProxyLeaveRequest_def Let_def lookupSess_def remSession_def bindE_def
      split: option.splits)

lemma unreg_nil_session_server_initiated:
  assumes "sess msg = None" "\<not> init msg"
  shows "unregCase env msg routeErr a =
           (if queueOutNilReceiverOk env then Inr a else Inl NilDeref)"
  using assms
  by (simp add: unregCase_def handleProxyLeaveRequest_def Let_def lookupSess_def bindE_def
      queueOut_def)

lemma unreg_nil_session_client_initiated:
  assumes "sess msg = None" "init msg"
  shows "unregCase env msg routeErr a = Inl NilDeref"
proof -
  from handleProxyLeaveRequest_nil[OF assms(1), of env routeErr a] assms(2)
  obtain msg' a1 where
    r: "handleProxyLeaveRequest env msg routeErr a = Inr (False, msg', a1)"
    and p: "sess msg' = None" "init msg'"
    by blast
  from p show ?thesis
    by (auto simp add: unregCase_def r bindE_def queueOut_def)
qed

text \<open>
  Claim C8, as amended. Handling an unreg event never dereferences nil when the message
  carries a session. With a nil session the leave handler reports failure; a
  client-initiated event then dereferences nil, at the read of
  \<^verbatim>\<open>msg.sess.inflightReqs\<close> at the latest and whatever \<^verbatim>\<open>queueOut\<close> does; a
  server-initiated event dereferences nil only inside the unguarded
  \<^verbatim>\<open>msg.sess.queueOut\<close> call, that is exactly when \<^verbatim>\<open>queueOut\<close> reads a nil
  receiver: when it returns on a nil receiver the event is handled and nothing changes.
\<close>

theorem unreg_nil_session_dereferences:
  "(sess msg \<noteq> None \<longrightarrow> (\<exists>a'. unregCase env msg routeErr a = Inr a'))
   \<and> (sess msg = None \<longrightarrow>
        (\<exists>msg' a'. handleProxyLeaveRequest env msg routeErr a = Inr (False, msg', a')))
   \<and> (sess msg = None \<and> init msg \<longrightarrow> unregCase env msg routeErr a = Inl NilDeref)
   \<and> (sess msg = None \<and> \<not> init msg \<longrightarrow>
        unregCase env msg routeErr a =
          (if queueOutNilReceiverOk env then Inr a else Inl NilDeref))"
proof (intro conjI impI)
  assume "sess msg \<noteq> None"
  then obtain s where s: "sess msg = Some s" by auto
  from handleProxyLeaveRequest_sess[OF s] obtain ok msg' a1 where
    "handleProxyLeaveRequest env msg routeErr a = Inr (ok, msg', a1)" "sess msg' = Some s"
    by blast
  from unregCase_tail[OF this] show "\<exists>a'. unregCase env msg routeErr a = Inr a'" by blast
next
  assume "sess msg = None"
  from handleProxyLeaveRequest_nil[OF this]
  show "\<exists>msg' a'. handleProxyLeaveRequest env msg routeErr a = Inr (False, msg', a')"
    by blast
next
  assume "sess msg = None \<and> init msg"
  then show "unregCase env msg routeErr a = Inl NilDeref"
    by (simp add: unreg_nil_session_client_initiated)
next
  assume "sess msg = None \<and> \<not> init msg"
  then show "unregCase env msg routeErr a =
          (if queueOutNilReceiverOk env then Inr a else Inl NilDeref)"
    by (simp add: unreg_nil_session_server_initiated)
qed

theorem unreg_nil_session_dereferences_witness:
  "returned (unregCase exEnv (exLeave True ''usrA'' (Some 1)) False (exActor []))
   \<and> unregCase exEnv (exLeave True ''usrA'' None) False (exActor []) = Inl NilDeref
   \<and> unregCase exEnv (exLeave False [] None) False (exActor []) = Inl NilDeref
   \<and> unregCase exEnvNilOk (exLeave True ''usrA'' None) False (exActor []) = Inl NilDeref"
proof -
  have a: "\<exists>a'. unregCase exEnv (exLeave True ''usrA'' (Some 1)) False (exActor []) = Inr a'"
    using unreg_nil_session_dereferences
            [of "exLeave True ''usrA'' (Some 1)" exEnv False "exActor []", THEN conjunct1]
    by (simp add: ex_simps)
  have b: "unregCase exEnv (exLeave True ''usrA'' None) False (exActor []) = Inl NilDeref"
    using unreg_nil_session_dereferences
            [of "exLeave True ''usrA'' None" exEnv False "exActor []",
             THEN conjunct2, THEN conjunct2, THEN conjunct1]
    by (simp add: ex_simps)
  have c: "unregCase exEnv (exLeave False [] None) False (exActor []) = Inl NilDeref"
    using unreg_nil_session_dereferences
            [of "exLeave False [] None" exEnv False "exActor []",
             THEN conjunct2, THEN conjunct2, THEN conjunct2]
    by (simp add: ex_simps)
  have d: "unregCase exEnvNilOk (exLeave True ''usrA'' None) False (exActor []) = Inl NilDeref"
    using unreg_nil_session_dereferences
            [of "exLeave True ''usrA'' None" exEnvNilOk False "exActor []",
             THEN conjunct2, THEN conjunct2, THEN conjunct1]
    by (simp add: ex_simps)
  from a b c d show ?thesis by (auto simp add: returned_def)
qed

text \<open>The claim as first worded fails when \<^verbatim>\<open>queueOut\<close> returns on a nil receiver: a
  server-initiated unreg event with a nil session is then handled without a dereference
  (the error reply goes nowhere, and \<^verbatim>\<open>msg.init\<close> is false, so
  \<^verbatim>\<open>msg.sess.inflightReqs\<close> is not read).\<close>

theorem unreg_nil_session_server_initiated_returns:
  "unregCase exEnvNilOk (exLeave False [] None) False (exActor []) = Inr (exActor [])"
  by (simp add: unregCase_def handleProxyLeaveRequest_def Let_def lookupSess_def bindE_def
      queueOut_def ex_simps exEnvNilOk_def exEnv_def)

subsection \<open>Broadcasts\<close>

lemma enqueue_simps:
  "topic (enqueue s m a) = topic a"
  "killTimer (enqueue s m a) = killTimer a"
  "routed (enqueue s m a) = routed a"
  "hubUnreg (enqueue s m a) = hubUnreg a"
  "exited (enqueue s m a) = exited a"
  by (simp_all add: enqueue_def updSession_simps)

lemma broadcastToSessions_frame:
  "topic (broadcastToSessions m a) = topic a \<and> killTimer (broadcastToSessions m a) = killTimer a"
proof -
  have "\<And>a. topic (fold (\<lambda>s. enqueue s (SrvOut m)) ks a) = topic a
          \<and> killTimer (fold (\<lambda>s. enqueue s (SrvOut m)) ks a) = killTimer a" for ks
    by (induction ks) (simp_all add: enqueue_simps)
  then show ?thesis by (simp add: broadcastToSessions_def)
qed

lemma handleProxyBroadcast_lastID:
  "lastID (topic (handleProxyBroadcast m a)) =
     (if inactive (topic a) then lastID (topic a)
      else case Data m of None \<Rightarrow> lastID (topic a) | Some d \<Rightarrow> SeqId d)"
  by (simp add: handleProxyBroadcast_def Let_def broadcastToSessions_frame split: option.splits)

lemma exData_simps: "SrvMsg (exResp (exData 3) ''*'' ProxyReqNone) = Some (exData 3)" 
  "Data (exData n) = Some \<lparr>SeqId = n\<rparr>" "Pres (exData n) = None"
  by (simp_all add: exResp_def exData_def)

text \<open>
  Claim C4, as amended. A Data broadcast handled by an active proxy topic sets the
  topic's last sequence id to the broadcast's SeqId (an inactive topic keeps its value);
  so the last id does not decrease when the SeqId is not below the value before the
  broadcast.
\<close>

theorem data_broadcast_sets_lastID:
  "SrvMsg resp = Some m \<and> OrigSid resp = ''*'' \<and> Data m = Some d
   \<longrightarrow> (\<exists>a'. proxyMasterResponse env resp sess' session a = Inr a'
          \<and> lastID (topic a') = (if inactive (topic a) then lastID (topic a) else SeqId d)
          \<and> (lastID (topic a) \<le> SeqId d \<longrightarrow> lastID (topic a) \<le> lastID (topic a')))"
proof
  assume h: "SrvMsg resp = Some m \<and> OrigSid resp = ''*'' \<and> Data m = Some d"
  obtain a1 where a1: "presAcs env m a = Inr a1" "lastID (topic a1) = lastID (topic a)"
    "inactive (topic a1) = inactive (topic a)"
    using presAcs_ok by blast
  from h a1 have "proxyMasterResponse env resp sess' session a = Inr (handleProxyBroadcast m a1)"
    by (simp add: proxyMasterResponse_def bindE_def)
  moreover have "lastID (topic (handleProxyBroadcast m a1)) =
      (if inactive (topic a) then lastID (topic a) else SeqId d)"
    using h a1 by (simp add: handleProxyBroadcast_lastID)
  ultimately show "\<exists>a'. proxyMasterResponse env resp sess' session a = Inr a'
          \<and> lastID (topic a') = (if inactive (topic a) then lastID (topic a) else SeqId d)
          \<and> (lastID (topic a) \<le> SeqId d \<longrightarrow> lastID (topic a) \<le> lastID (topic a'))"
    by auto
qed

theorem data_broadcast_sets_lastID_witness:
  "lastIDAfter (proxyMasterResponse exEnv (exResp (exData 8) ''*'' ProxyReqNone) None None
     (exActor [])) = Some 8"
  using data_broadcast_sets_lastID[of "exResp (exData 8) ''*'' ProxyReqNone" "exData 8"
       "\<lparr>SeqId = 8\<rparr>" exEnv None None "exActor []"]
  by (auto simp add: ex_simps exData_simps exResp_def lastIDAfter_def)

text \<open>The claim as first worded fails: a Data broadcast with SeqId 3 on a topic whose
  last id is 5 lowers it to 3.\<close>

theorem data_broadcast_lowers_lastID:
  "lastIDAfter (proxyMasterResponse exEnv (exResp (exData 3) ''*'' ProxyReqNone) None None
     (exActor [])) = Some 3 \<and> lastID (topic (exActor [])) = 5"
  by (simp add: proxyMasterResponse_def ex_simps exData_simps presAcs_def bindE_def lastIDAfter_def
     handleProxyBroadcast_lastID)


subsection \<open>Eviction\<close>

lemma evictOne_frame:
  "name (topic (evictOne m k a)) = name (topic a)"
  "killTimer (evictOne m k a) = killTimer a"
  "lastID (topic (evictOne m k a)) = lastID (topic a)"
  by (auto simp add: evictOne_def remSession_def Let_def detachSession_def delSub_def
      enqueue_def updSession_simps split: option.splits)

lemma evictOne_map_of:
  "s \<noteq> k \<Longrightarrow> map_of (sessions (topic (evictOne m k a))) s = map_of (sessions (topic a)) s"
  by (auto simp add: evictOne_def remSession_def Let_def detachSession_def delSub_def
      enqueue_def updSession_simps split: option.splits)

lemma delete_as_filter:
  assumes "distinct (map fst xs)" "map_of xs k = Some p"
  shows "AList.delete k xs = filter (\<lambda>(s, q). \<not> (s = k \<and> uid q = uid p)) xs"
proof -
  have "\<And>s q. (s, q) \<in> set xs \<Longrightarrow> s = k \<Longrightarrow> q = p"
    using assms by (metis map_of_is_SomeI option.inject)
  then have "filter (\<lambda>(s, q). \<not> (s = k \<and> uid q = uid p)) xs = filter (\<lambda>(s, q). k \<noteq> s) xs"
    by (intro filter_cong) auto
  then show ?thesis by (simp add: AList.delete_eq)
qed

lemma keep_as_filter:
  assumes "distinct (map fst xs)" "\<And>p. map_of xs k = Some p \<Longrightarrow> uid p \<noteq> u"
  shows "filter (\<lambda>(s, q). \<not> (s = k \<and> uid q = u)) xs = xs"
proof -
  have "\<And>s q. (s, q) \<in> set xs \<Longrightarrow> \<not> (s = k \<and> uid q = u)"
    using assms by (metis map_of_is_SomeI)
  then show ?thesis by (auto simp add: filter_id_conv)
qed

lemma evictOne_sessions:
  assumes "distinct (map fst (sessions (topic a)))"
  shows "sessions (topic (evictOne m k a)) =
           filter (\<lambda>(s, q). \<not> (s = k \<and> uid q = muid m)) (sessions (topic a))"
proof (cases "map_of (sessions (topic a)) k")
  case None
  then have "sessions (topic (evictOne m k a)) = sessions (topic a)"
    by (simp add: evictOne_def remSession_def)
  moreover from None assms have
    "filter (\<lambda>(s, q). \<not> (s = k \<and> uid q = muid m)) (sessions (topic a)) = sessions (topic a)"
    by (intro keep_as_filter) auto
  ultimately show ?thesis by simp
next
  case (Some p)
  show ?thesis
  proof (cases "uid p = muid m")
    case True
    with Some have "sessions (topic (evictOne m k a)) = AList.delete k (sessions (topic a))"
      by (simp add: evictOne_def remSession_def Let_def detachSession_def delSub_def
          enqueue_def updSession_simps)
    with delete_as_filter[OF assms Some] True show ?thesis by simp
  next
    case False
    with Some have "sessions (topic (evictOne m k a)) = sessions (topic a)"
      by (simp add: evictOne_def remSession_def)
    moreover from Some False assms have
      "filter (\<lambda>(s, q). \<not> (s = k \<and> uid q = muid m)) (sessions (topic a)) = sessions (topic a)"
      by (intro keep_as_filter) auto
    ultimately show ?thesis by simp
  qed
qed

lemma evict_fold_sessions:
  "distinct (map fst (sessions (topic a))) \<Longrightarrow>
   sessions (topic (fold (evictOne m) ks a)) =
     filter (\<lambda>(s, q). \<not> (s \<in> set ks \<and> uid q = muid m)) (sessions (topic a))"
proof (induction ks arbitrary: a)
  case Nil
  then show ?case by simp
next
  case (Cons k ks)
  have d: "distinct (map fst (sessions (topic (evictOne m k a))))"
    using Cons.prems by (simp add: evictOne_sessions distinct_map_filter)
  have "sessions (topic (fold (evictOne m) (k # ks) a)) =
          filter (\<lambda>(s, q). \<not> (s \<in> set ks \<and> uid q = muid m))
            (filter (\<lambda>(s, q). \<not> (s = k \<and> uid q = muid m)) (sessions (topic a)))"
    using Cons.IH[OF d] Cons.prems by (simp add: evictOne_sessions)
  also have "\<dots> = filter (\<lambda>(s, q). \<not> (s \<in> set (k # ks) \<and> uid q = muid m)) (sessions (topic a))"
    by (auto intro: filter_cong)
  finally show ?case .
qed

lemma evictOne_heap:
  "heap (evictOne m k a) s =
     (if s = k \<and> (\<exists>p. map_of (sessions (topic a)) k = Some p \<and> uid p = muid m)
      then evictedSession (name (topic a)) m (heap a s)
      else heap a s)"
  by (auto simp add: evictOne_def remSession_def Let_def detachSession_def delSub_def
      enqueue_def updSession_simps evictedSession_def split: option.splits)

lemma evict_fold_heap:
  "distinct ks \<Longrightarrow>
   heap (fold (evictOne m) ks a) s =
     (if s \<in> set ks \<and> (\<exists>p. map_of (sessions (topic a)) s = Some p \<and> uid p = muid m)
      then evictedSession (name (topic a)) m (heap a s)
      else heap a s)"
proof (induction ks arbitrary: a)
  case Nil
  then show ?case by simp
next
  case (Cons k ks)
  from Cons.prems have k: "k \<notin> set ks" and d: "distinct ks" by simp_all
  show ?case
  proof (cases "s = k")
    case True
    with k have "heap (fold (evictOne m) (k # ks) a) s = heap (evictOne m k a) k"
      using Cons.IH[OF d, of "evictOne m k a"] by simp
    with True show ?thesis by (auto simp add: evictOne_heap)
  next
    case False
    then show ?thesis
      using Cons.IH[OF d, of "evictOne m k a"]
      by (auto simp add: evictOne_heap evictOne_map_of evictOne_frame)
  qed
qed

lemma evict_fold_frame:
  "name (topic (fold (evictOne m) ks a)) = name (topic a)
   \<and> killTimer (fold (evictOne m) ks a) = killTimer a
   \<and> lastID (topic (fold (evictOne m) ks a)) = lastID (topic a)"
  by (induction ks arbitrary: a) (simp_all add: evictOne_frame)

text \<open>
  Claim C6. A broadcast Ctrl message with status 205 and text "evicted" carrying the
  (nonzero) uid U and SkipSid K removes from the topic's session set exactly the attached
  sessions whose per-session uid is U; each of them loses its subscription for the topic
  and, unless its sid is K, is sent the message; the session with sid K is detached and
  not notified; every other session is left as it was.
\<close>

theorem eviction_broadcast:
  assumes "SrvMsg resp = Some m" and "OrigSid resp = ''*''"
      and "Pres m = None" and "Data m = None" and "Info m = None"
      and "Ctrl m = Some c" and "Code c = 205" and "Text c = ''evicted''"
      and "muid m \<noteq> 0"
      and "distinct (map fst (sessions (topic a)))"
  shows "\<exists>a'. proxyMasterResponse env resp sess' session a = Inr a'
           \<and> sessions (topic a') = filter (\<lambda>(s, p). uid p \<noteq> muid m) (sessions (topic a))
           \<and> (\<forall>s p. (s, p) \<in> set (sessions (topic a)) \<and> uid p = muid m \<longrightarrow>
                 heap a' s = evictedSession (name (topic a)) m (heap a s)
                 \<and> subs (heap a' s) (name (topic a)) = None
                 \<and> (sid (heap a s) \<noteq> SkipSid m \<longrightarrow>
                       outq (heap a' s) = outq (heap a s) @ [SrvOut m])
                 \<and> (sid (heap a s) = SkipSid m \<longrightarrow> outq (heap a' s) = outq (heap a s)))
           \<and> (\<forall>s. (\<forall>p. (s, p) \<in> set (sessions (topic a)) \<longrightarrow> uid p \<noteq> muid m) \<longrightarrow>
                 heap a' s = heap a s)"
proof -
  let ?ks = "map fst (sessions (topic a))"
  let ?a' = "fold (evictOne m) ?ks a"
  have pa: "presAcs env m a = Inr a" using assms(3) by (simp add: presAcs_def)
  have r: "proxyMasterResponse env resp sess' session a = Inr ?a'"
    using assms(1-9) pa by (simp add: proxyMasterResponse_def bindE_def proxyCtrlBroadcast_def)
  have mem: "\<And>s p. (map_of (sessions (topic a)) s = Some p) = ((s, p) \<in> set (sessions (topic a)))"
    using assms(10) by simp
  have s: "sessions (topic ?a') = filter (\<lambda>(s, p). uid p \<noteq> muid m) (sessions (topic a))"
  proof -
    have "sessions (topic ?a') =
        filter (\<lambda>(s, q). \<not> (s \<in> set ?ks \<and> uid q = muid m)) (sessions (topic a))"
      using assms(10) by (rule evict_fold_sessions)
    also have "\<dots> = filter (\<lambda>(s, p). uid p \<noteq> muid m) (sessions (topic a))"
      by (intro filter_cong) force+
    finally show ?thesis .
  qed
  have h: "\<And>s. heap ?a' s =
     (if (\<exists>p. (s, p) \<in> set (sessions (topic a)) \<and> uid p = muid m)
      then evictedSession (name (topic a)) m (heap a s) else heap a s)"
  proof -
    fix s
    have "(s \<in> set ?ks \<and> (\<exists>p. map_of (sessions (topic a)) s = Some p \<and> uid p = muid m))
          = (\<exists>p. (s, p) \<in> set (sessions (topic a)) \<and> uid p = muid m)"
      using mem by force
    then show "heap ?a' s =
     (if (\<exists>p. (s, p) \<in> set (sessions (topic a)) \<and> uid p = muid m)
      then evictedSession (name (topic a)) m (heap a s) else heap a s)"
      using evict_fold_heap[OF assms(10), of m a s] by simp
  qed
  show ?thesis
    using r s h by (auto simp add: evictedSession_def)
qed

text \<open>An eviction message with a zero uid stops the actor with a panic.\<close>

lemma eviction_zero_uid_panics:
  assumes "Ctrl m = Some c" "Code c = 205" "Text c = ''evicted''" "muid m = 0"
  shows "proxyCtrlBroadcast m a = Inl Panic"
  using assms by (simp add: proxyCtrlBroadcast_def)


theorem eviction_broadcast_witness:
  "\<exists>a'. proxyMasterResponse exEnv (exResp (exCtrl 205 ''evicted'' 5 ''sid7'') ''*'' ProxyReqNone)
            None None
            (exActor [(1, \<lparr>uid = 5, isChanSub = False\<rparr>), (2, \<lparr>uid = 5, isChanSub = False\<rparr>),
                      (3, \<lparr>uid = 7, isChanSub = False\<rparr>)]) = Inr a'
        \<and> sessions (topic a') = [(3, \<lparr>uid = 7, isChanSub = False\<rparr>)]
        \<and> outq (heap a' 1) = [SrvOut (exCtrl 205 ''evicted'' 5 ''sid7'')]
        \<and> subs (heap a' 1) ''grpXYZ'' = None
        \<and> outq (heap a' 2) = []
        \<and> subs (heap a' 2) ''grpXYZ'' = None
        \<and> heap a' 3 = exHeap 3"
proof -
  let ?m = "exCtrl 205 ''evicted'' 5 ''sid7''"
  let ?ss = "[(1, \<lparr>uid = 5, isChanSub = False\<rparr>), (2, \<lparr>uid = 5, isChanSub = False\<rparr>),
                      (3::nat, \<lparr>uid = 7, isChanSub = False\<rparr>)]"
  let ?a = "exActor ?ss"
  have hyps: "SrvMsg (exResp ?m ''*'' ProxyReqNone) = Some ?m"
    "OrigSid (exResp ?m ''*'' ProxyReqNone) = ''*''"
    "Pres ?m = None" "Data ?m = None" "Info ?m = None"
    "Ctrl ?m = Some \<lparr>Code = 205, Text = ''evicted'', CtrlTopic = ''grpXYZ''\<rparr>"
    "Code \<lparr>Code = 205, Text = ''evicted'', CtrlTopic = ''grpXYZ''\<rparr> = 205"
    "Text \<lparr>Code = 205, Text = ''evicted'', CtrlTopic = ''grpXYZ''\<rparr> = ''evicted''"
    "muid ?m \<noteq> 0"
    "distinct (map fst (sessions (topic ?a)))"
    by (simp_all add: ex_simps)
  from eviction_broadcast[OF hyps, of exEnv None None]
  obtain a' where r: "proxyMasterResponse exEnv (exResp ?m ''*'' ProxyReqNone) None None ?a = Inr a'"
    and s: "sessions (topic a') = filter (\<lambda>(s, p). uid p \<noteq> muid ?m) (sessions (topic ?a))"
    and e: "\<forall>s p. (s, p) \<in> set (sessions (topic ?a)) \<and> uid p = muid ?m \<longrightarrow>
                 heap a' s = evictedSession (name (topic ?a)) ?m (heap ?a s)
                 \<and> subs (heap a' s) (name (topic ?a)) = None
                 \<and> (sid (heap ?a s) \<noteq> SkipSid ?m \<longrightarrow>
                       outq (heap a' s) = outq (heap ?a s) @ [SrvOut ?m])
                 \<and> (sid (heap ?a s) = SkipSid ?m \<longrightarrow> outq (heap a' s) = outq (heap ?a s))"
    and k: "\<forall>s. (\<forall>p. (s, p) \<in> set (sessions (topic ?a)) \<longrightarrow> uid p \<noteq> muid ?m) \<longrightarrow>
                 heap a' s = heap ?a s"
    by blast
  from s have s': "sessions (topic a') = [(3, \<lparr>uid = 7, isChanSub = False\<rparr>)]"
    by (simp add: ex_simps)
  from e[rule_format, of 1 "\<lparr>uid = 5, isChanSub = False\<rparr>"]
  have 1: "subs (heap a' 1) ''grpXYZ'' = None \<and> outq (heap a' 1) = [SrvOut ?m]"
    by (simp add: ex_simps exHeap_def evictedSession_def)
  from e[rule_format, of 2 "\<lparr>uid = 5, isChanSub = False\<rparr>"]
  have 2: "subs (heap a' 2) ''grpXYZ'' = None \<and> outq (heap a' 2) = []"
    by (simp add: ex_simps exHeap_def evictedSession_def)
  from k[rule_format, of 3] have 3: "heap a' 3 = exHeap 3"
    by (simp add: ex_simps)
  from r s' 1 2 3 show ?thesis by blast
qed


subsection \<open>The idle timer\<close>

lemma queueOut_frame:
  "queueOut env so m a = Inr a' \<Longrightarrow> topic a' = topic a \<and> killTimer a' = killTimer a"
  by (auto simp add: queueOut_def enqueue_simps split: option.splits if_splits)

lemma inflightDone_frame:
  "inflightDone so a = Inr a' \<Longrightarrow> topic a' = topic a \<and> killTimer a' = killTimer a"
  by (auto simp add: inflightDone_def updSession_simps split: option.splits)

lemma inflightDoneIfSet_frame:
  "inflightDoneIfSet so a = Inr a' \<Longrightarrow> topic a' = topic a \<and> killTimer a' = killTimer a"
  by (auto simp add: inflightDoneIfSet_def dest: inflightDone_frame split: option.splits if_splits)

lemma clusterCall_frame:
  "topic (clusterCall c a) = topic a" "killTimer (clusterCall c a) = killTimer a"
  "heap (clusterCall c a) = heap a"
  by (simp_all add: clusterCall_def)

lemma forwardOrReply_frame:
  "forwardOrReply env req msg routeErr a = Inr a' \<Longrightarrow>
   topic a' = topic a \<and> killTimer a' = killTimer a"
  by (auto simp add: forwardOrReply_def Let_def clusterCall_frame dest: queueOut_frame
      split: if_splits)

lemma regCase_frame:
  "regCase env msg routeErr a = Inr a' \<Longrightarrow> topic a' = topic a \<and> killTimer a' = killTimer a"
  by (auto simp add: regCase_def bindE_def
      dest!: queueOut_frame forwardOrReply_frame inflightDoneIfSet_frame
      split: sum.splits if_splits)

lemma remSession_sessions:
  "remSession t so u = (pssd, removed, t1) \<Longrightarrow> sessions t = [] \<Longrightarrow> sessions t1 = []"
  by (auto simp add: remSession_def split: option.splits if_splits)

lemma handleProxyLeaveRequest_timer:
  assumes "handleProxyLeaveRequest env msg routeErr a = Inr (ok, msg', a')"
      and "\<not> (lookupSess (topic a) (sess msg) = None
               \<and> (init msg \<longrightarrow> ParseUserId env (AsUser msg) = 0))"
  shows "killTimer a' =
           (if sessions (topic a') = [] then Some (idleProxyTopicTimeout env) else killTimer a)
         \<and> (sessions (topic a) = [] \<longrightarrow> sessions (topic a') = [])"
  using assms
  by (auto simp add: handleProxyLeaveRequest_def Let_def bindE_def delSub_def
      updSession_simps clusterCall_frame remSession_def lookupSess_def
      split: option.splits if_splits prod.splits)

lemma handleProxyLeaveRequest_inv:
  assumes "handleProxyLeaveRequest env msg routeErr a = Inr (ok, msg', a')" "timerInv a"
  shows "timerInv a'"
proof (cases "lookupSess (topic a) (sess msg) = None
               \<and> (init msg \<longrightarrow> ParseUserId env (AsUser msg) = 0)")
  case True
  then have "handleProxyLeaveRequest env msg routeErr a = Inr (False, msg, a)"
    by (simp add: handleProxyLeaveRequest_unknown)
  with assms show ?thesis by simp
next
  case False
  from handleProxyLeaveRequest_timer[OF assms(1) False] assms(2) show ?thesis
    by (auto simp add: timerInv_def)
qed

lemma unregCase_after_handler:
  assumes "unregCase env msg routeErr a = Inr a'"
  shows "\<exists>ok msg' a1. handleProxyLeaveRequest env msg routeErr a = Inr (ok, msg', a1)
           \<and> topic a' = topic a1 \<and> killTimer a' = killTimer a1"
  using assms
  by (auto simp add: unregCase_def bindE_def dest!: queueOut_frame inflightDone_frame
      split: sum.splits if_splits option.splits)

lemma unregCase_inv:
  "unregCase env msg routeErr a = Inr a' \<Longrightarrow> timerInv a \<Longrightarrow> timerInv a'"
  using unregCase_after_handler[of env msg routeErr a a'] handleProxyLeaveRequest_inv
  by (fastforce simp add: timerInv_def)

lemma handleProxyBroadcast_frame:
  "sessions (topic (handleProxyBroadcast m a)) = sessions (topic a)
   \<and> killTimer (handleProxyBroadcast m a) = killTimer a"
  by (simp add: handleProxyBroadcast_def Let_def broadcastToSessions_frame split: option.splits)

lemma proxyCtrlBroadcast_frame:
  "proxyCtrlBroadcast m a = Inr a' \<Longrightarrow>
   killTimer a' = killTimer a \<and> (sessions (topic a) = [] \<longrightarrow> sessions (topic a') = [])"
  by (auto simp add: proxyCtrlBroadcast_def evict_fold_frame split: option.splits if_splits)

lemma joinResponse_timer:
  assumes "Ctrl m = Some c"
  shows "killTimer (joinResponse env m (Some s) session a) =
           (if Code c < 300 then None
            else if sessions (topic (joinResponse env m (Some s) session a)) = []
                 then Some (idleProxyTopicTimeout env) else killTimer a)"
    and "300 \<le> Code c \<Longrightarrow> sessions (topic (joinResponse env m (Some s) session a)) = sessions (topic a)"
  using assms
  by (auto simp add: joinResponse_def Let_def addSub_def updSession_simps split: option.splits)

lemma joinResponse_inv: "timerInv a \<Longrightarrow> timerInv (joinResponse env m sess' session a)"
  by (auto simp add: joinResponse_def Let_def addSub_def updSession_simps timerInv_def
      split: option.splits)

lemma leaveResponse_timer:
  assumes "Ctrl m = Some c"
  shows "killTimer (leaveResponse env m sess' a) =
           (if sessions (topic (leaveResponse env m sess' a)) = []
            then Some (idleProxyTopicTimeout env) else killTimer a)
         \<and> (sessions (topic a) = [] \<longrightarrow> sessions (topic (leaveResponse env m sess' a)) = [])"
  using assms
  by (auto simp add: leaveResponse_def Let_def remSession_def split: option.splits prod.splits)

lemma leaveResponse_inv: "timerInv a \<Longrightarrow> timerInv (leaveResponse env m sess' a)"
proof (cases "Ctrl m")
  case None
  then show "timerInv a \<Longrightarrow> timerInv (leaveResponse env m sess' a)"
    by (simp add: leaveResponse_def)
next
  case (Some c)
  from leaveResponse_timer[OF Some, of env sess' a]
  show "timerInv a \<Longrightarrow> timerInv (leaveResponse env m sess' a)"
    by (auto simp add: timerInv_def)
qed

lemma proxyMasterResponse_inv:
  assumes "proxyMasterResponse env msg sess' session a = Inr a'" "timerInv a"
  shows "timerInv a'"
proof -
  from assms(1) obtain m where m: "SrvMsg msg = Some m"
    by (auto simp add: proxyMasterResponse_def split: option.splits)
  obtain a1 where a1: "presAcs env m a = Inr a1" "sessions (topic a1) = sessions (topic a)"
    "killTimer a1 = killTimer a"
    using presAcs_ok by blast
  with assms(2) have i1: "timerInv a1" by (simp add: timerInv_def)
  show ?thesis
  proof (cases "OrigSid msg = ''*''")
    case True
    with assms(1) m a1 i1 show ?thesis
      by (auto simp add: proxyMasterResponse_def bindE_def timerInv_def
          handleProxyBroadcast_frame dest!: proxyCtrlBroadcast_frame split: if_splits)
  next
    case False
    let ?a2 = "(case OrigReqType msg of
                             ProxyReqJoin \<Rightarrow> joinResponse env m sess' session a1
                           | ProxyReqBroadcast \<Rightarrow> a1
                           | ProxyReqMeta \<Rightarrow> a1
                           | ProxyReqCall \<Rightarrow> a1
                           | ProxyReqLeave \<Rightarrow> leaveResponse env m sess' a1
                           | _ \<Rightarrow> a1)"
    have i2: "timerInv ?a2"
      using i1 by (cases "OrigReqType msg") (simp_all add: joinResponse_inv leaveResponse_inv)
    from False assms(1) m a1 have "topic a' = topic ?a2 \<and> killTimer a' = killTimer ?a2"
      by (cases sess') (auto simp add: proxyMasterResponse_def bindE_def Let_def enqueue_simps)
    with i2 show ?thesis by (simp add: timerInv_def)
  qed
qed

lemma exitCase_frame:
  "sessions (topic (exitCase a)) = sessions (topic a) \<and> killTimer (exitCase a) = killTimer a"
proof -
  have "\<And>b. topic (fold (\<lambda>s. detachSession s tn) ks b) = topic b
          \<and> killTimer (fold (\<lambda>s. detachSession s tn) ks b) = killTimer b" for ks tn
    by (induction ks) (simp_all add: detachSession_def delSub_def updSession_simps)
  then show ?thesis by (simp add: exitCase_def Let_def clusterCall_frame)
qed

lemma step_inv: "step env e a = Inr a' \<Longrightarrow> timerInv a \<Longrightarrow> timerInv a'"
proof (cases e)
  case (Reg msg routeErr)
  then show "step env e a = Inr a' \<Longrightarrow> timerInv a \<Longrightarrow> timerInv a'"
    by (auto simp add: timerInv_def dest!: regCase_frame)
next
  case (Unreg msg routeErr)
  then show "step env e a = Inr a' \<Longrightarrow> timerInv a \<Longrightarrow> timerInv a'"
    by (auto intro: unregCase_inv)
next
  case (ClientMsg msg routeErr)
  then show "step env e a = Inr a' \<Longrightarrow> timerInv a \<Longrightarrow> timerInv a'"
    by (auto simp add: timerInv_def dest!: forwardOrReply_frame)
next
  case (ServerMsg msg)
  then show "step env e a = Inr a' \<Longrightarrow> timerInv a \<Longrightarrow> timerInv a'"
    by (auto simp add: timerInv_def serverMsgCase_def clusterCall_frame split: if_splits)
next
  case (Meta msg routeErr)
  then show "step env e a = Inr a' \<Longrightarrow> timerInv a \<Longrightarrow> timerInv a'"
    by (auto simp add: timerInv_def dest!: forwardOrReply_frame)
next
  case (Supd upd)
  then show "step env e a = Inr a' \<Longrightarrow> timerInv a \<Longrightarrow> timerInv a'"
    by (auto simp add: timerInv_def supdCase_def clusterCall_frame split: option.splits)
next
  case (Proxy msg sess' session)
  then show "step env e a = Inr a' \<Longrightarrow> timerInv a \<Longrightarrow> timerInv a'"
    by (auto intro: proxyMasterResponse_inv)
next
  case Exit
  then show "step env e a = Inr a' \<Longrightarrow> timerInv a \<Longrightarrow> timerInv a'"
    by (auto simp add: timerInv_def exitCase_frame)
next
  case KillTimerFired
  then show "step env e a = Inr a' \<Longrightarrow> timerInv a \<Longrightarrow> timerInv a'"
    by (auto simp add: timerInv_def killTimerCase_def split: option.splits)
qed

lemma runLoop_inv: "runLoop env es a = Inr a' \<Longrightarrow> timerInv a \<Longrightarrow> timerInv a'"
proof (induction es arbitrary: a)
  case Nil
  then show ?case by simp
next
  case (Cons e es)
  show ?case
  proof (cases "exited a")
    case True
    with Cons.prems show ?thesis by simp
  next
    case False
    with Cons.prems obtain a1 where s: "step env e a = Inr a1" and r: "runLoop env es a1 = Inr a'"
      by (auto simp add: bindE_def split: sum.splits)
    from step_inv[OF s Cons.prems(2)] Cons.IH[OF r] show ?thesis by simp
  qed
qed


text \<open>
  Claim C2, as amended. From the start of the loop on (the timer is created stopped),
  after every sequence of events the kill timer is not armed while a session is
  attached. An unreg event that passes the unknown-session guard, a leave response
  carrying a Ctrl, and a join response with a Ctrl code of 300 or more for a session
  still in the store arm the timer to \<open>idleProxyTopicTimeout\<close> when the session set is
  empty after the event and leave it alone otherwise; a join response with a Ctrl code
  below 300 for a session still in the store stops it.
\<close>

theorem idle_timer_discipline:
  "(runProxy env es a = Inr a' \<longrightarrow> timerInv a')
   \<and> (unregCase env msg routeErr a = Inr a'
        \<and> \<not> (lookupSess (topic a) (sess msg) = None
               \<and> (init msg \<longrightarrow> ParseUserId env (AsUser msg) = 0))
      \<longrightarrow> killTimer a' =
            (if sessions (topic a') = [] then Some (idleProxyTopicTimeout env)
             else killTimer a))
   \<and> (SrvMsg resp = Some m \<and> Ctrl m = Some c \<and> OrigSid resp \<noteq> ''*''
        \<and> proxyMasterResponse env resp sess' session a = Inr a'
      \<longrightarrow> (OrigReqType resp = ProxyReqLeave
             \<longrightarrow> killTimer a' =
                   (if sessions (topic a') = [] then Some (idleProxyTopicTimeout env)
                    else killTimer a))
          \<and> (OrigReqType resp = ProxyReqJoin \<and> sess' \<noteq> None
             \<longrightarrow> killTimer a' =
                   (if Code c < 300 then None
                    else if sessions (topic a') = [] then Some (idleProxyTopicTimeout env)
                    else killTimer a)))"
proof (intro conjI impI)
  assume "runProxy env es a = Inr a'"
  then have "runLoop env es (a\<lparr>killTimer := None\<rparr>) = Inr a'"
    by (simp add: runProxy_def)
  moreover have "timerInv (a\<lparr>killTimer := None\<rparr>)" by (simp add: timerInv_def)
  ultimately show "timerInv a'" by (rule runLoop_inv)
next
  assume h: "unregCase env msg routeErr a = Inr a'
        \<and> \<not> (lookupSess (topic a) (sess msg) = None
               \<and> (init msg \<longrightarrow> ParseUserId env (AsUser msg) = 0))"
  then obtain ok msg' a1 where
    r: "handleProxyLeaveRequest env msg routeErr a = Inr (ok, msg', a1)"
    and f: "topic a' = topic a1" "killTimer a' = killTimer a1"
    using unregCase_after_handler by blast
  from handleProxyLeaveRequest_timer[OF r] h f
  show "killTimer a' =
            (if sessions (topic a') = [] then Some (idleProxyTopicTimeout env)
             else killTimer a)"
    by simp
next
  assume h: "SrvMsg resp = Some m \<and> Ctrl m = Some c \<and> OrigSid resp \<noteq> ''*''
        \<and> proxyMasterResponse env resp sess' session a = Inr a'"
  assume t: "OrigReqType resp = ProxyReqLeave"
  obtain a1 where a1: "presAcs env m a = Inr a1" "sessions (topic a1) = sessions (topic a)"
    "killTimer a1 = killTimer a"
    using presAcs_ok by blast
  from h t a1 have "topic a' = topic (leaveResponse env m sess' a1)
      \<and> killTimer a' = killTimer (leaveResponse env m sess' a1)"
    by (cases sess') (auto simp add: proxyMasterResponse_def bindE_def Let_def enqueue_simps)
  with leaveResponse_timer[of m c env sess' a1] h a1
  show "killTimer a' =
                   (if sessions (topic a') = [] then Some (idleProxyTopicTimeout env)
                    else killTimer a)"
    by simp
next
  assume h: "SrvMsg resp = Some m \<and> Ctrl m = Some c \<and> OrigSid resp \<noteq> ''*''
        \<and> proxyMasterResponse env resp sess' session a = Inr a'"
  assume t: "OrigReqType resp = ProxyReqJoin \<and> sess' \<noteq> None"
  then obtain s where s: "sess' = Some s" by auto
  obtain a1 where a1: "presAcs env m a = Inr a1" "sessions (topic a1) = sessions (topic a)"
    "killTimer a1 = killTimer a"
    using presAcs_ok by blast
  from h t a1 s have "topic a' = topic (joinResponse env m (Some s) session a1)
      \<and> killTimer a' = killTimer (joinResponse env m (Some s) session a1)"
    by (auto simp add: proxyMasterResponse_def bindE_def Let_def enqueue_simps)
  with joinResponse_timer(1)[of m c env s session a1] h a1
  show "killTimer a' =
                   (if Code c < 300 then None
                    else if sessions (topic a') = [] then Some (idleProxyTopicTimeout env)
                    else killTimer a)"
    by simp
qed


lemmas example_defs =
  runProxy_def proxyMasterResponse_def presAcs_def joinResponse_def leaveResponse_def
  bindE_def ex_simps addSub_def addSession_def updSession_def enqueue_def exIsChannel_def
  exActor_def exTopic_def exEnv_def exResp_def exCtrl_def Let_def timerAfter_def
  sessionsAfter_def regCase_def forwardOrReply_def clusterCall_def inflightDoneIfSet_def
  inflightDone_def exHeap_def exLeave_def queueOut_def unregCase_def
  handleProxyLeaveRequest_def lookupSess_def remSession_def delSub_def exParse_def
  exUserId_def exOriginal_def proxyCtrlBroadcast_def evictOne_def detachSession_def

theorem idle_timer_discipline_witness:
  "timerAfter (runProxy exEnv
      [Reg (exLeave True ''usrA'' (Some 1)) False,
       Proxy (exResp (exCtrl 200 ''ok'' 5 []) ''sid1'' ProxyReqJoin) (Some 1) (Some 1)]
      (exActor [])) = Some None
   \<and> sessionsAfter (runProxy exEnv
      [Reg (exLeave True ''usrA'' (Some 1)) False,
       Proxy (exResp (exCtrl 200 ''ok'' 5 []) ''sid1'' ProxyReqJoin) (Some 1) (Some 1)]
      (exActor [])) = [(1, \<lparr>uid = 5, isChanSub = False\<rparr>)]
   \<and> timerAfter (unregCase exEnv (exLeave False [] (Some 1)) True
        (exActor [(1, \<lparr>uid = 5, isChanSub = False\<rparr>)])) = Some (Some 5)
   \<and> timerAfter (proxyMasterResponse exEnv
        (exResp (exCtrl 200 ''ok'' 5 []) ''sid1'' ProxyReqLeave) (Some 1) (Some 1)
        (exActor [(1, \<lparr>uid = 5, isChanSub = False\<rparr>)])) = Some (Some 5)
   \<and> timerAfter (proxyMasterResponse exEnv
        (exResp (exCtrl 404 ''not found'' 5 []) ''sid1'' ProxyReqJoin) (Some 1) (Some 1)
        (exActor [])) = Some (Some 5)"
proof -
  let ?ss = "[(1::nat, \<lparr>uid = 5, isChanSub = False\<rparr>)]"
  let ?ok = "\<lparr>Code = 200, Text = ''ok'', CtrlTopic = ''grpXYZ''\<rparr>"
  let ?no = "\<lparr>Code = 404, Text = ''not found'', CtrlTopic = ''grpXYZ''\<rparr>"
  obtain a1 where r1: "runProxy exEnv
      [Reg (exLeave True ''usrA'' (Some 1)) False,
       Proxy (exResp (exCtrl 200 ''ok'' 5 []) ''sid1'' ProxyReqJoin) (Some 1) (Some 1)]
      (exActor []) = Inr a1" and s1: "sessions (topic a1) = ?ss"
    by (simp add: example_defs)
  from idle_timer_discipline[THEN conjunct1, rule_format, OF r1] s1
  have t1: "killTimer a1 = None" by (simp add: timerInv_def)
  obtain a2 where r2: "unregCase exEnv (exLeave False [] (Some 1)) True (exActor ?ss) = Inr a2"
    and s2: "sessions (topic a2) = []"
    by (simp add: example_defs)
  from idle_timer_discipline[THEN conjunct2, THEN conjunct1, rule_format,
         of exEnv "exLeave False [] (Some 1)" True "exActor ?ss" a2] r2 s2
  have t2: "killTimer a2 = Some 5" by (simp add: ex_simps lookupSess_def)
  obtain a3 where r3: "proxyMasterResponse exEnv
        (exResp (exCtrl 200 ''ok'' 5 []) ''sid1'' ProxyReqLeave) (Some 1) (Some 1)
        (exActor ?ss) = Inr a3" and s3: "sessions (topic a3) = []"
    by (simp add: example_defs)
  from idle_timer_discipline[THEN conjunct2, THEN conjunct2, rule_format,
         of "exResp (exCtrl 200 ''ok'' 5 []) ''sid1'' ProxyReqLeave" "exCtrl 200 ''ok'' 5 []" ?ok
            exEnv "Some 1" "Some 1" "exActor ?ss" a3, THEN conjunct1] r3 s3
  have t3: "killTimer a3 = Some 5" by (simp add: ex_simps)
  obtain a4 where r4: "proxyMasterResponse exEnv
        (exResp (exCtrl 404 ''not found'' 5 []) ''sid1'' ProxyReqJoin) (Some 1) (Some 1)
        (exActor []) = Inr a4" and s4: "sessions (topic a4) = []"
    by (simp add: example_defs)
  from idle_timer_discipline[THEN conjunct2, THEN conjunct2, rule_format,
         of "exResp (exCtrl 404 ''not found'' 5 []) ''sid1'' ProxyReqJoin"
            "exCtrl 404 ''not found'' 5 []" ?no
            exEnv "Some 1" "Some 1" "exActor []" a4, THEN conjunct2] r4 s4
  have t4: "killTimer a4 = Some 5" by (simp add: ex_simps)
  from r1 s1 t1 r2 t2 r3 t3 r4 t4 show ?thesis
    by (simp add: timerAfter_def sessionsAfter_def)
qed

text \<open>The claim as first worded fails: the loop starts with the timer stopped and no
  session attached, and a refused join response for a session that has left the store
  leaves it so.\<close>

theorem idle_timer_stopped_while_empty:
  "timerAfter (runProxy exEnv
      [Proxy (exResp (exCtrl 404 ''not found'' 5 []) ''sid1'' ProxyReqJoin) None None]
      (exActor [])) = Some None
   \<and> sessionsAfter (runProxy exEnv
      [Proxy (exResp (exCtrl 404 ''not found'' 5 []) ''sid1'' ProxyReqJoin) None None]
      (exActor [])) = []"
  by (simp add: example_defs)

text \<open>The eviction broadcast can empty the session set; it does not touch the timer.\<close>

lemma eviction_leaves_timer_stopped:
  "timerAfter (runProxy exEnv
      [Proxy (exResp (exCtrl 200 ''ok'' 5 []) ''sid1'' ProxyReqJoin) (Some 1) (Some 1),
       Proxy (exResp (exCtrl 205 ''evicted'' 5 []) ''*'' ProxyReqNone) None None]
      (exActor [])) = Some None
   \<and> sessionsAfter (runProxy exEnv
      [Proxy (exResp (exCtrl 200 ''ok'' 5 []) ''sid1'' ProxyReqJoin) (Some 1) (Some 1),
       Proxy (exResp (exCtrl 205 ''evicted'' 5 []) ''*'' ProxyReqNone) None None]
      (exActor [])) = []"
  by (simp add: example_defs)


section \<open>Properties of the shutdown\<close>

text \<open>
  Claim C3. On the shutdown event \<open>listenAndServe\<close> performs, in this order and nothing
  else: it sets the global shuttingDown flag, shuts the HTTP server down under a
  2-second context, shuts the session store, waits for the listener goroutine, (releases
  the context,) shuts the cluster node, terminates the plugins, stops the gRPC server
  when one is configured, stops the statistics, sends the hub its shutdown request and
  waits for its answer, stops the users cache; then it returns. Leaving the release of
  the context aside, these are the ten steps in the stated order.
\<close>

theorem shutdown_order:
  "performed (listenAndServe StopSignal g) =
     performed g @
     [SetShuttingDown, HttpShutdown 2, SessionStoreShutdown, AwaitHttpDone, CancelShutdownCtx,
      ClusterShutdown, PluginsShutdown]
     @ (if grpcServer g then [GrpcStop] else [])
     @ [StatsShutdown, HubShutdownSend, AwaitHubDone, UsersShutdown]
   \<and> filter (\<lambda>x. x \<noteq> CancelShutdownCtx) (performed (listenAndServe StopSignal g)) =
     filter (\<lambda>x. x \<noteq> CancelShutdownCtx) (performed g) @
     [SetShuttingDown, HttpShutdown 2, SessionStoreShutdown, AwaitHttpDone,
      ClusterShutdown, PluginsShutdown]
     @ (if grpcServer g then [GrpcStop] else [])
     @ [StatsShutdown, HubShutdownSend, AwaitHubDone, UsersShutdown]
   \<and> shuttingDown (listenAndServe StopSignal g) = True"
  by (simp add: listenAndServe_def stopCase_def perform_def Let_def)

section \<open>Properties of the media handlers\<close>

lemma int64_id: "- (2 ^ 63) \<le> x \<Longrightarrow> x < 2 ^ 63 \<Longrightarrow> int64 x = x"
  by (simp add: int64_def)

lemma DeleteUnused_deleted:
  assumes "DeleteUnused t lim fs = (deleted, fs1)"
  shows "length deleted \<le> nat lim"
    and "\<And>f. f \<in> set deleted \<Longrightarrow> \<not> attached f \<and> updatedAt f \<le> t \<and> f \<in> set fs"
    and "set fs1 \<subseteq> set fs"
proof -
  from assms have d: "deleted = take (nat lim) (filter (unusedSince t) fs)"
    and l: "fs1 = filter (\<lambda>f. f \<notin> set deleted) fs"
    by (auto simp add: DeleteUnused_def Let_def)
  from d show "length deleted \<le> nat lim" by simp
  from l show "set fs1 \<subseteq> set fs" by auto
  fix f assume "f \<in> set deleted"
  with d have "f \<in> set (filter (unusedSince t) fs)" by (auto dest: in_set_takeD)
  then show "\<not> attached f \<and> updatedAt f \<le> t \<and> f \<in> set fs"
    by (simp add: unusedSince_def)
qed

lemma gcLoop_log:
  "\<exists>log fs'. gcLoop bs (map GcTick ts @ GcStop # es) fs = (log, fs', True)
      \<and> map fst log = ts
      \<and> (\<forall>(now, deleted) \<in> set log.
            length deleted \<le> nat bs
            \<and> (\<forall>f \<in> set deleted. \<not> attached f \<and> updatedAt f \<le> now - hour \<and> f \<in> set fs))
      \<and> set fs' \<subseteq> set fs"
proof (induction ts arbitrary: fs)
  case Nil
  show ?case by simp
next
  case (Cons t ts)
  obtain deleted fs1 where d: "DeleteUnused (t - hour) bs fs = (deleted, fs1)"
    by (cases "DeleteUnused (t - hour) bs fs")
  from Cons.IH[of fs1] obtain log fs' where
    r: "gcLoop bs (map GcTick ts @ GcStop # es) fs1 = (log, fs', True)"
    and t: "map fst log = ts"
    and p: "\<forall>(now, deleted) \<in> set log.
            length deleted \<le> nat bs
            \<and> (\<forall>f \<in> set deleted. \<not> attached f \<and> updatedAt f \<le> now - hour \<and> f \<in> set fs1)"
    and s: "set fs' \<subseteq> set fs1"
    by blast
  note dd = DeleteUnused_deleted[OF d]
  have A: "gcLoop bs (map GcTick (t # ts) @ GcStop # es) fs = ((t, deleted) # log, fs', True)"
    by (simp add: d r)
  have B: "map fst ((t, deleted) # log) = t # ts" using t by simp
  have C: "\<forall>(now, del) \<in> set ((t, deleted) # log).
            length del \<le> nat bs
            \<and> (\<forall>f \<in> set del. \<not> attached f \<and> updatedAt f \<le> now - hour \<and> f \<in> set fs)"
    using p dd by fastforce
  have D: "set fs' \<subseteq> set fs" using s dd(3) by blast
  show ?case
    apply (rule exI[of _ "(t, deleted) # log"])
    apply (rule exI[of _ fs'])
    using A B C D apply simp
    done
qed

lemma gcTicker_jittered:
  assumes "2 \<le> period" and "period \<le> 2 ^ 62" and "0 \<le> r" and "r < period div 2"
  shows "gcTicker period r = Inr (Some (period div 2 + period div 4 + r))"
proof -
  have p: "period \<le> 4611686018427387904" using assms(2) by simp
  have a: "int64 (period div 2 + period div 4) = period div 2 + period div 4"
    using assms(1) p by (intro int64_id) simp_all
  have b: "int64 (period div 2 + period div 4 + r) = period div 2 + period div 4 + r"
    using assms(1,3,4) p by (intro int64_id) simp_all
  have c: "0 < period div 2 + period div 4 + r" using assms by linarith
  have d: "\<not> period div 2 \<le> 0" using assms by linarith
  show ?thesis
    using c d by (simp add: gcTicker_def jitteredPeriod_def a b Tick_def)
qed

text \<open>
  Claim C7, as amended. For a period from 2 ns to \<open>2^62\<close> ns the collector creates
  its ticker with the jittered interval \<open>d = period div 2 + period div 4 + r\<close>, where
  \<open>r\<close> is the random draw from \<open>[0, period div 2)\<close>; every tick, the first and each
  later one, fires \<open>d\<close> after the one before (tick \<open>k\<close> at \<open>k * d\<close> after the start);
  on each tick it deletes at most \<open>blockSize\<close> files (none when \<open>blockSize\<close> is not
  positive), each of them uploaded but never attached for at least one hour; a value
  sent on the stop channel ends the goroutine. With a period below 2 ns the random draw
  panics.
\<close>

theorem gc_ticks_at_jittered_period:
  "(period < 2 \<longrightarrow> largeFileRunGarbageCollection period blockSize r t0 n fs = Inl Panic)
   \<and> (2 \<le> period \<and> period \<le> 2 ^ 62 \<and> 0 \<le> r \<and> r < period div 2 \<longrightarrow>
        (\<exists>log fs'. largeFileRunGarbageCollection period blockSize r t0 n fs
                      = Inr (log, fs', True)
           \<and> map fst log =
               map (\<lambda>k. t0 + int k * (period div 2 + period div 4 + r)) [1..<Suc n]
           \<and> (\<forall>(now, deleted) \<in> set log.
                 length deleted \<le> nat blockSize
                 \<and> (\<forall>f \<in> set deleted.
                       \<not> attached f \<and> updatedAt f \<le> now - hour \<and> f \<in> set fs))
           \<and> set fs' \<subseteq> set fs))"
proof (intro conjI impI)
  assume "period < 2"
  then have "period div 2 \<le> 0" by linarith
  then show "largeFileRunGarbageCollection period blockSize r t0 n fs = Inl Panic"
    by (simp add: largeFileRunGarbageCollection_def gcTicker_def jitteredPeriod_def)
next
  assume h: "2 \<le> period \<and> period \<le> 2 ^ 62 \<and> 0 \<le> r \<and> r < period div 2"
  let ?d = "period div 2 + period div 4 + r"
  let ?ts = "map (\<lambda>k. t0 + int k * ?d) [1..<Suc n]"
  from h have t: "gcTicker period r = Inr (Some ?d)" by (simp add: gcTicker_jittered)
  have "largeFileRunGarbageCollection period blockSize r t0 n fs =
          Inr (gcLoop blockSize (map GcTick ?ts @ GcStop # []) fs)"
    by (simp add: largeFileRunGarbageCollection_def t tickerEvents_def)
  with gcLoop_log[of blockSize ?ts "[]" fs]
  show "\<exists>log fs'. largeFileRunGarbageCollection period blockSize r t0 n fs
                      = Inr (log, fs', True)
           \<and> map fst log = ?ts
           \<and> (\<forall>(now, deleted) \<in> set log.
                 length deleted \<le> nat blockSize
                 \<and> (\<forall>f \<in> set deleted.
                       \<not> attached f \<and> updatedAt f \<le> now - hour \<and> f \<in> set fs))
           \<and> set fs' \<subseteq> set fs"
    by auto
qed

theorem gc_ticks_at_jittered_period_witness:
  "largeFileRunGarbageCollection 1 100 0 0 2 exFiles = Inl Panic
   \<and> gcTickTimes (largeFileRunGarbageCollection 60000000000 100 1000000000 0 2 exFiles)
       = [46000000000, 92000000000]"
proof -
  have a: "largeFileRunGarbageCollection 1 100 0 0 2 exFiles = Inl Panic"
    using gc_ticks_at_jittered_period[of 1 100 0 0 2 exFiles, THEN conjunct1]
    by simp
  from gc_ticks_at_jittered_period
         [of 60000000000 100 1000000000 0 2 exFiles, THEN conjunct2, rule_format]
  obtain log fs' where
    r: "largeFileRunGarbageCollection 60000000000 100 1000000000 0 2 exFiles
          = Inr (log, fs', True)"
    and t: "map fst log =
              map (\<lambda>k. 0 + int k * (60000000000 div 2 + 60000000000 div 4 + 1000000000))
                [1..<Suc 2]"
    by auto
  from t have "map fst log = [46000000000, 92000000000]"
    by (simp add: upt_rec)
  with r a show ?thesis by (simp add: gcTickTimes_def)
qed

text \<open>The claim as first worded fails: with a period of one minute and a draw of one
  second the ticks come 46 s and 92 s after the start, so the second tick fires 46 s
  after the first and not one minute after it.\<close>

theorem gc_second_tick_not_at_period:
  "gcTickTimes (largeFileRunGarbageCollection 60000000000 100 1000000000 0 2 exFiles)
     = [46000000000, 92000000000]"
  by (simp add: gcTickTimes_def largeFileRunGarbageCollection_def gcTicker_def
      jitteredPeriod_def int64_def Tick_def tickerEvents_def upt_rec DeleteUnused_def
      unusedSince_def exFiles_def hour_def Let_def)

text \<open>
  Claim C10. An upload (POST or PUT) that passes the API key check and the
  authentication, is not short-circuited by the media handler and whose form file was
  read within the size limit, but whose file part gives no byte to the first read (a
  zero-byte file, or a failing read), is answered with ErrUnknown; neither the backend's
  Upload nor Files.FinishUpload is called.
\<close>

theorem upload_without_bytes_is_ErrUnknown:
  assumes "Method u = ''POST'' \<or> Method u = ''PUT''"
      and "apiKeyValid u"
      and "authErr u = None" and "\<not> authChallenge u"
      and "authUid u \<noteq> 0 \<or> formTopic u = ''newacc''"
      and "headersErr u = None" and "headersStatus u = 0"
      and "formFile u = Inr f"
      and "content f = [] \<or> readFails f"
  shows "largeFileReceive u = (ErrUnknown (formId u), [])"
  using assms by (auto simp add: largeFileReceive_def readHead_def)

theorem upload_without_bytes_is_ErrUnknown_witness:
  "largeFileReceive (exUpload []) = (ErrUnknown ''42'', [])"
  using upload_without_bytes_is_ErrUnknown[of "exUpload []"
     "\<lparr>content = [], partContentType = ''text/plain'', readFails = False, seekFails = False\<rparr>"]
  by (simp add: exUpload_def)

text \<open>The same upload with three bytes goes through to the backend.\<close>

lemma upload_with_bytes:
  "largeFileReceive (exUpload ''abc'') =
     (NoErrParams ''42'' [(''url'', ''/v0/file/s/abc'')],
      [BackendUpload ''text/plain'', FinishUpload True 3])"
  by (simp add: largeFileReceive_def exUpload_def readHead_def resolveMime_def exDetect_def
      exParseMedia_def exFormatMedia_def allowedMimeTypes_def Let_def)

end
